theory Spec2Isabelle
  imports Main
begin

chapter \<open>A converter of video files to AV1\<close>

text \<open>
  The source file \<^verbatim>\<open>convert_video_to_av1.go\<close> holds two versions of one program.
  The \<^emph>\<open>generic\<close> variant scans the whole base path and writes every output into a
  configured output directory. The \<^emph>\<open>filtered\<close> variant scans only the immediate
  subdirectories of the base path that are named like a date, probes the codec of every
  file, skips what is AV1 already, and writes every output beside its input. Both declare
  \<^verbatim>\<open>Config\<close>, \<^verbatim>\<open>loadConfig\<close>, \<^verbatim>\<open>findVideoFiles\<close>,
  \<^verbatim>\<open>convertVideoToAV1\<close> and \<^verbatim>\<open>main\<close>; here the two are told apart by the
  suffixes \<open>_generic\<close> and \<open>_filtered\<close>. Log output is not modelled.
\<close>

section \<open>Byte strings and the Go library functions the converter calls\<close>

text \<open>
  A Go \<^verbatim>\<open>string\<close> is a byte sequence; it is modelled as \<^typ>\<open>string\<close>
  (a list of 8-bit characters). The program is modelled as built for a Unix target: the
  only path separator is the slash, there are no volume names, and
  \<^verbatim>\<open>runtime.GOOS\<close> is not \<^verbatim>\<open>windows\<close>.
\<close>

definition goos :: string where
  "goos = ''linux''"

definition isPathSeparator :: "char \<Rightarrow> bool" where
  "isPathSeparator c = (c = CHR ''/'')"

definition notSeparator :: "char \<Rightarrow> bool" where
  "notSeparator c = (c \<noteq> CHR ''/'')"

subsection \<open>\<^verbatim>\<open>strings\<close>\<close>

text \<open>\<^verbatim>\<open>strings.HasSuffix\<close>, \<^verbatim>\<open>strings.TrimSuffix\<close> and
  \<^verbatim>\<open>strings.Contains\<close> compare bytes.\<close>

definition HasSuffix :: "string \<Rightarrow> string \<Rightarrow> bool" where
  "HasSuffix s suffix =
     (length suffix \<le> length s \<and> drop (length s - length suffix) s = suffix)"

definition TrimSuffix :: "string \<Rightarrow> string \<Rightarrow> string" where
  "TrimSuffix s suffix =
     (if HasSuffix s suffix then take (length s - length suffix) s else s)"

definition HasPrefix :: "string \<Rightarrow> string \<Rightarrow> bool" where
  "HasPrefix s pre = (take (length pre) s = pre)"

fun Contains :: "string \<Rightarrow> string \<Rightarrow> bool" where
  "Contains [] substr = (substr = [])"
| "Contains (c # cs) substr = (HasPrefix (c # cs) substr \<or> Contains cs substr)"

text \<open>
  \<^verbatim>\<open>strings.ToLower\<close> has two paths. A string of ASCII bytes only is lowered
  byte by byte (\<^verbatim>\<open>A\<close>..\<^verbatim>\<open>Z\<close> plus 32). Any other string goes through
  \<^verbatim>\<open>strings.Map(unicode.ToLower, s)\<close>, which decodes UTF-8 and consults the
  Unicode tables; that half of the library is a parameter of the model
  (\<open>mapToLower\<close> below), so every theorem holds whatever it returns.
\<close>

definition isASCII :: "string \<Rightarrow> bool" where
  "isASCII s = list_all (\<lambda>c. (of_char c :: nat) < 128) s"

definition isUpperByte :: "char \<Rightarrow> bool" where
  "isUpperByte c = (65 \<le> (of_char c :: nat) \<and> (of_char c :: nat) \<le> 90)"

definition lowerByte :: "char \<Rightarrow> char" where
  "lowerByte c = (if isUpperByte c then char_of ((of_char c :: nat) + 32) else c)"

definition ToLower :: "(string \<Rightarrow> string) \<Rightarrow> string \<Rightarrow> string" where
  "ToLower mapToLower s = (if isASCII s then map lowerByte s else mapToLower s)"

text \<open>
  \<^verbatim>\<open>strings.TrimSpace\<close>: the ASCII white space bytes are tab, line feed,
  vertical tab, form feed, carriage return and space. The scan from the left stops at
  the first byte that is not ASCII white space; if that byte is not ASCII the rest is
  handed to \<^verbatim>\<open>TrimFunc(., unicode.IsSpace)\<close>. The scan from the right does
  the same with \<^verbatim>\<open>TrimRightFunc\<close>. Both Unicode fallbacks are parameters.
\<close>

definition asciiSpace :: "char \<Rightarrow> bool" where
  "asciiSpace c = (c \<in> set [CHR 0x09, CHR 0x0A, CHR 0x0B, CHR 0x0C, CHR 0x0D, CHR '' ''])"

definition nonASCII :: "char \<Rightarrow> bool" where
  "nonASCII c = (128 \<le> (of_char c :: nat))"

fun trimRightSpace :: "(string \<Rightarrow> string) \<Rightarrow> string \<Rightarrow> string" where
  "trimRightSpace trimRightFunc [] = []"
| "trimRightSpace trimRightFunc (c # cs) =
     (if nonASCII (last (c # cs)) then trimRightFunc (c # cs)
      else if asciiSpace (last (c # cs)) then trimRightSpace trimRightFunc (butlast (c # cs))
      else c # cs)"

fun TrimSpace :: "(string \<Rightarrow> string) \<Rightarrow> (string \<Rightarrow> string) \<Rightarrow> string \<Rightarrow> string" where
  "TrimSpace trimFunc trimRightFunc [] = []"
| "TrimSpace trimFunc trimRightFunc (c # cs) =
     (if nonASCII c then trimFunc (c # cs)
      else if asciiSpace c then TrimSpace trimFunc trimRightFunc cs
      else trimRightSpace trimRightFunc (c # cs))"

subsection \<open>\<^verbatim>\<open>path/filepath\<close>\<close>

text \<open>
  \<^verbatim>\<open>filepath.Ext\<close> walks back from the end of the path, stops at a separator
  with the empty result, and returns the suffix that starts at the first dot it meets.
  \<open>extFrom rest acc\<close> is the loop: \<open>rest\<close> is the reversed prefix still to scan,
  \<open>acc\<close> the bytes already passed.
\<close>

fun extFrom :: "string \<Rightarrow> string \<Rightarrow> string" where
  "extFrom [] acc = []"
| "extFrom (c # rest) acc =
     (if isPathSeparator c then []
      else if c = CHR ''.'' then c # acc
      else extFrom rest (c # acc))"

definition Ext :: "string \<Rightarrow> string" where
  "Ext path = extFrom (rev path) []"

text \<open>
  \<^verbatim>\<open>filepath.Base\<close>: the empty path gives a dot; trailing separators are
  stripped; what follows the last separator is returned, and a path of separators only
  gives one separator.
\<close>

definition stripTrailingSeparators :: "string \<Rightarrow> string" where
  "stripTrailingSeparators path = rev (dropWhile isPathSeparator (rev path))"

definition lastElement :: "string \<Rightarrow> string" where
  "lastElement path = rev (takeWhile notSeparator (rev path))"

definition Base :: "string \<Rightarrow> string" where
  "Base path =
     (if path = [] then ''.''
      else let e = lastElement (stripTrailingSeparators path)
           in if e = [] then ''/'' else e)"

text \<open>
  \<^verbatim>\<open>filepath.Clean\<close> reads the path byte by byte into an output buffer.
  \<open>dotdot\<close> is the buffer index below which a \<^verbatim>\<open>..\<close> element may not
  remove anything. \<open>backtrack buf dotdot w\<close> is the inner loop that moves the write
  index \<open>w\<close> back to the previous separator.
\<close>

function backtrack :: "string \<Rightarrow> nat \<Rightarrow> nat \<Rightarrow> nat" where
  "backtrack buf dotdot w =
     (if w > dotdot \<and> notSeparator (buf ! w) then backtrack buf dotdot (w - 1) else w)"
  by pat_completeness auto
termination
  by (relation "measure (\<lambda>(buf, dotdot, w). w)") auto

declare backtrack.simps [simp del]

function cleanLoop :: "bool \<Rightarrow> string \<Rightarrow> string \<Rightarrow> nat \<Rightarrow> string" where
  "cleanLoop rooted [] out dotdot = out"
| "cleanLoop rooted (c # cs) out dotdot =
     (if isPathSeparator c then cleanLoop rooted cs out dotdot
      else if c = CHR ''.'' \<and> (cs = [] \<or> isPathSeparator (hd cs)) then
        cleanLoop rooted cs out dotdot
      else if c = CHR ''.'' \<and> take 1 cs = ''.'' \<and>
              (drop 1 cs = [] \<or> isPathSeparator (hd (drop 1 cs))) then
        (if length out > dotdot then
           cleanLoop rooted (drop 1 cs) (take (backtrack out dotdot (length out - 1)) out) dotdot
         else if \<not> rooted then
           (let out' = (if length out > 0 then out @ ''/'' else out) @ ''..''
            in cleanLoop rooted (drop 1 cs) out' (length out'))
         else cleanLoop rooted (drop 1 cs) out dotdot)
      else
        (let out' = (if rooted \<and> length out \<noteq> 1 \<or> \<not> rooted \<and> length out \<noteq> 0
                     then out @ ''/'' else out)
         in cleanLoop rooted (dropWhile notSeparator cs)
              (out' @ c # takeWhile notSeparator cs) dotdot))"
  by pat_completeness auto
termination
  by (relation "measure (\<lambda>(rooted, path, out, dotdot). length path)")
     (simp_all add: le_imp_less_Suc length_dropWhile_le)

definition Clean :: "string \<Rightarrow> string" where
  "Clean path =
     (if path = [] then ''.''
      else let rooted = isPathSeparator (hd path);
               out = (if rooted then cleanLoop True (tl path) ''/'' 1
                      else cleanLoop False path [] 0)
           in if out = [] then ''.'' else out)"

text \<open>\<^verbatim>\<open>filepath.Dir\<close> cleans the path up to and including its last separator.\<close>

definition Dir :: "string \<Rightarrow> string" where
  "Dir path = Clean (rev (dropWhile notSeparator (rev path)))"

text \<open>
  \<^verbatim>\<open>filepath.Join\<close> of two elements: empty leading elements are dropped, the
  rest is joined with a separator and cleaned; all elements empty gives the empty string.
\<close>

definition Join :: "string \<Rightarrow> string \<Rightarrow> string" where
  "Join a b =
     (if a \<noteq> [] then Clean (a @ ''/'' @ b)
      else if b \<noteq> [] then Clean b
      else [])"

section \<open>The operating system as the program sees it\<close>

text \<open>
  Everything outside the program is an oracle of the environment record \<open>os_env\<close>:
  the content of files, what \<^verbatim>\<open>json.Unmarshal\<close> makes of it, the state of the
  file system, and the behaviour of the subprocesses. The effects of the program are
  recorded in the \<open>world\<close>: its calls of \<^verbatim>\<open>os.MkdirAll\<close>, each with whether it
  succeeded, and the commands it spawned, in order. The outcome of a subprocess may
  depend on everything spawned before it, so two runs of the same command need not agree.
\<close>

datatype file_type = Regular | Symlink | Irregular

text \<open>
  An \<^verbatim>\<open>fs.DirEntry\<close> together with what lies below it: an entry that is not a
  directory (a regular file, a symbolic link, which the walk does not follow, or a
  device, pipe or socket), or a directory with the entries \<^verbatim>\<open>os.ReadDir\<close>
  returns for it, sorted by name, and whether \<^verbatim>\<open>os.ReadDir\<close> reported an error
  after them.
\<close>

datatype node = NonDir string file_type | Directory string "node list" bool

fun Name :: "node \<Rightarrow> string" where
  "Name (NonDir nm t) = nm"
| "Name (Directory nm dirs rderr) = nm"

fun IsDir :: "node \<Rightarrow> bool" where
  "IsDir (NonDir nm t) = False"
| "IsDir (Directory nm dirs rderr) = True"

text \<open>What \<^verbatim>\<open>os.Stat\<close> returns: file information (here only whether it is a
  directory), the error that \<^verbatim>\<open>os.IsNotExist\<close> recognises, or another error.\<close>

datatype stat_result = StatOk bool | ErrNotExist | ErrOther

text \<open>A finished subprocess: its exit code and its combined output, or a failure to start.\<close>

datatype proc_result = Exited nat string | NotStarted

fun procError :: "proc_result \<Rightarrow> bool" where
  "procError (Exited code out) = (code \<noteq> 0)"
| "procError NotStarted = True"

fun procOutput :: "proc_result \<Rightarrow> string" where
  "procOutput (Exited code out) = out"
| "procOutput NotStarted = []"

record Config_filtered =
  BasePath :: string
  FfmpegPath :: string

record Config = Config_filtered +
  OutputPath :: string

text \<open>
  The oracles. \<open>readFile\<close> is \<^verbatim>\<open>os.ReadFile\<close> and \<open>unmarshal\<close> is
  \<^verbatim>\<open>json.Unmarshal\<close> into the \<^verbatim>\<open>Config\<close> of either variant (\<open>None\<close> is an
  error). \<open>statOracle\<close> answers \<^verbatim>\<open>os.Stat\<close> given the commands spawned so far;
  \<open>mkdirAllOk\<close> tells whether \<^verbatim>\<open>os.MkdirAll\<close> succeeds and \<open>lookPath\<close> whether
  \<^verbatim>\<open>exec.LookPath\<close> finds the name. \<open>lstatTree\<close> gives the tree that a walk from
  a path finds (\<open>None\<close> when \<^verbatim>\<open>os.Lstat\<close> fails), \<open>readDir\<close> the entries
  \<^verbatim>\<open>os.ReadDir\<close> returns (\<open>None\<close> when it reports an error). \<open>runProc\<close> is the
  outcome of a command given the commands spawned before it. The last three are the
  Unicode halves of \<^verbatim>\<open>strings.ToLower\<close> and \<^verbatim>\<open>strings.TrimSpace\<close>.
\<close>

record os_env =
  readFile :: "string \<Rightarrow> string option"
  unmarshal :: "string \<Rightarrow> Config option"
  unmarshal_filtered :: "string \<Rightarrow> Config_filtered option"
  statOracle :: "string list list \<Rightarrow> string \<Rightarrow> stat_result"
  mkdirAllOk :: "string \<Rightarrow> bool"
  lookPath :: "string \<Rightarrow> bool"
  lstatTree :: "string \<Rightarrow> node option"
  readDir :: "string \<Rightarrow> node list option"
  runProc :: "string list list \<Rightarrow> string list \<Rightarrow> proc_result"
  mapToLower :: "string \<Rightarrow> string"
  trimFunc :: "string \<Rightarrow> string"
  trimRightFunc :: "string \<Rightarrow> string"

record world =
  spawned :: "string list list"
  mkdirCalls :: "(string \<times> bool) list"

definition world0 :: world where
  "world0 = \<lparr>spawned = [], mkdirCalls = []\<rparr>"

text \<open>\<^verbatim>\<open>os.Stat\<close>: a directory that \<^verbatim>\<open>os.MkdirAll\<close> reported as made exists;
  anything else is the oracle's.\<close>

definition Stat :: "os_env \<Rightarrow> world \<Rightarrow> string \<Rightarrow> stat_result" where
  "Stat env w name =
     (if (name, True) \<in> set (mkdirCalls w) then StatOk True
      else statOracle env (spawned w) name)"

text \<open>\<^verbatim>\<open>os.MkdirAll\<close>: returns whether it failed, and the world after it.\<close>

definition MkdirAll :: "os_env \<Rightarrow> world \<Rightarrow> string \<Rightarrow> bool \<times> world" where
  "MkdirAll env w path =
     (if mkdirAllOk env path then (False, w\<lparr>mkdirCalls := mkdirCalls w @ [(path, True)]\<rparr>)
      else (True, w\<lparr>mkdirCalls := mkdirCalls w @ [(path, False)]\<rparr>))"

text \<open>\<^verbatim>\<open>exec.Command(name, args...).Run()\<close>: the command is recorded, the oracle
  decides its outcome.\<close>

definition Run :: "os_env \<Rightarrow> world \<Rightarrow> string list \<Rightarrow> proc_result \<times> world" where
  "Run env w cmd = (runProc env (spawned w) cmd, w\<lparr>spawned := spawned w @ [cmd]\<rparr>)"

section \<open>The configuration loader\<close>

datatype config_error =
    ConfigReadError
  | ConfigParseError
  | MissingFieldError string
  | PathNotFoundError
  | DirectoryCreateError
  | OutputPathCheckError
  | ExecutableNotFoundError
  | ExecutableCheckError

text \<open>The last check of both loaders: \<^verbatim>\<open>exec.LookPath\<close>, then \<^verbatim>\<open>os.Stat\<close>
  of the literal path. \<open>None\<close> is success (with a warning when only the file exists).\<close>

definition checkFfmpegPath :: "os_env \<Rightarrow> world \<Rightarrow> string \<Rightarrow> config_error option" where
  "checkFfmpegPath env w ffmpegPath =
     (if lookPath env ffmpegPath then None
      else (case Stat env w ffmpegPath of
              ErrNotExist \<Rightarrow> Some ExecutableNotFoundError
            | ErrOther \<Rightarrow> Some ExecutableCheckError
            | StatOk d \<Rightarrow> None))"

definition defaultFfmpegPath :: "string \<Rightarrow> string" where
  "defaultFfmpegPath p = (if p = [] then ''ffmpeg'' else p)"

definition loadConfig_generic ::
  "os_env \<Rightarrow> world \<Rightarrow> string \<Rightarrow> (config_error + Config) \<times> world" where
  "loadConfig_generic env w filename =
     (case readFile env filename of
        None \<Rightarrow> (Inl ConfigReadError, w)
      | Some configFile \<Rightarrow>
     (case unmarshal env configFile of
        None \<Rightarrow> (Inl ConfigParseError, w)
      | Some parsed \<Rightarrow>
        if BasePath parsed = [] then (Inl (MissingFieldError ''BasePath''), w)
        else if OutputPath parsed = [] then (Inl (MissingFieldError ''OutputPath''), w)
        else
          let config = parsed\<lparr>FfmpegPath := defaultFfmpegPath (FfmpegPath parsed)\<rparr> in
          if Stat env w (BasePath config) = ErrNotExist then (Inl PathNotFoundError, w)
          else
            (case Stat env w (OutputPath config) of
               ErrNotExist \<Rightarrow>
                 (case MkdirAll env w (OutputPath config) of
                    (True, w') \<Rightarrow> (Inl DirectoryCreateError, w')
                  | (False, w') \<Rightarrow>
                      (case checkFfmpegPath env w' (FfmpegPath config) of
                         Some e \<Rightarrow> (Inl e, w')
                       | None \<Rightarrow> (Inr config, w')))
             | ErrOther \<Rightarrow> (Inl OutputPathCheckError, w)
             | StatOk d \<Rightarrow>
                 (case checkFfmpegPath env w (FfmpegPath config) of
                    Some e \<Rightarrow> (Inl e, w)
                  | None \<Rightarrow> (Inr config, w)))))"

definition loadConfig_filtered ::
  "os_env \<Rightarrow> world \<Rightarrow> string \<Rightarrow> (config_error + Config_filtered) \<times> world" where
  "loadConfig_filtered env w filename =
     (case readFile env filename of
        None \<Rightarrow> (Inl ConfigReadError, w)
      | Some configFile \<Rightarrow>
     (case unmarshal_filtered env configFile of
        None \<Rightarrow> (Inl ConfigParseError, w)
      | Some parsed \<Rightarrow>
        if BasePath parsed = [] then (Inl (MissingFieldError ''BasePath''), w)
        else
          let config = parsed\<lparr>FfmpegPath := defaultFfmpegPath (FfmpegPath parsed)\<rparr> in
          if Stat env w (BasePath config) = ErrNotExist then (Inl PathNotFoundError, w)
          else
            (case checkFfmpegPath env w (FfmpegPath config) of
               Some e \<Rightarrow> (Inl e, w)
             | None \<Rightarrow> (Inr config, w))))"

section \<open>The directory scanner\<close>

definition videoExtensions :: "string \<rightharpoonup> bool" where
  "videoExtensions =
     map_of [(''.mp4'', True), (''.avi'', True), (''.mkv'', True), (''.mov'', True),
             (''.wmv'', True), (''.flv'', True), (''.webm'', True)]"

text \<open>
  The callback both variants hand to \<^verbatim>\<open>filepath.WalkDir\<close>. It receives the path,
  the entry (\<open>None\<close> for Go's nil, which \<^verbatim>\<open>WalkDir\<close> passes only together with
  an error) and whether an error is reported; it returns the list of video files and
  whether it returns an error itself, which it never does.
\<close>

definition walkFn ::
  "os_env \<Rightarrow> string \<Rightarrow> node option \<Rightarrow> bool \<Rightarrow> string list \<Rightarrow> string list \<times> bool" where
  "walkFn env path d err videoFiles =
     (if err then (videoFiles, False)
      else (case d of
              None \<Rightarrow> (videoFiles, False)
            | Some e \<Rightarrow>
                if \<not> IsDir e then
                  (let ext = ToLower (mapToLower env) (Ext path)
                   in if videoExtensions ext \<noteq> None then (videoFiles @ [path], False)
                      else (videoFiles, False))
                else (videoFiles, False)))"

text \<open>
  \<^verbatim>\<open>filepath.WalkDir\<close>: the callback is called on the entry; a directory is then
  read, a read error is reported to the callback by a second call, and the entries that
  were read are walked in order under the joined path. An error returned by the callback
  stops the walk. (The callback's type here has no \<^verbatim>\<open>SkipDir\<close> or
  \<^verbatim>\<open>SkipAll\<close>.)
\<close>

fun walkDir ::
  "(string \<Rightarrow> node option \<Rightarrow> bool \<Rightarrow> 'a \<Rightarrow> 'a \<times> bool) \<Rightarrow> string \<Rightarrow> node \<Rightarrow> 'a \<Rightarrow> 'a \<times> bool"
and walkEntries ::
  "(string \<Rightarrow> node option \<Rightarrow> bool \<Rightarrow> 'a \<Rightarrow> 'a \<times> bool) \<Rightarrow> string \<Rightarrow> node list \<Rightarrow> 'a \<Rightarrow> 'a \<times> bool"
where
  "walkDir fn path (NonDir nm t) acc = fn path (Some (NonDir nm t)) False acc"
| "walkDir fn path (Directory nm dirs rderr) acc =
     (case fn path (Some (Directory nm dirs rderr)) False acc of
        (acc1, True) \<Rightarrow> (acc1, True)
      | (acc1, False) \<Rightarrow>
          (case (if rderr then fn path (Some (Directory nm dirs rderr)) True acc1
                 else (acc1, False)) of
             (acc2, True) \<Rightarrow> (acc2, True)
           | (acc2, False) \<Rightarrow> walkEntries fn path dirs acc2))"
| "walkEntries fn path [] acc = (acc, False)"
| "walkEntries fn path (d1 # rest) acc =
     (case walkDir fn (Join path (Name d1)) d1 acc of
        (acc1, True) \<Rightarrow> (acc1, True)
      | (acc1, False) \<Rightarrow> walkEntries fn path rest acc1)"

definition WalkDir ::
  "os_env \<Rightarrow> string \<Rightarrow> (string \<Rightarrow> node option \<Rightarrow> bool \<Rightarrow> 'a \<Rightarrow> 'a \<times> bool) \<Rightarrow> 'a \<Rightarrow> 'a \<times> bool" where
  "WalkDir env root fn acc =
     (case lstatTree env root of
        None \<Rightarrow> fn root None True acc
      | Some d \<Rightarrow> walkDir fn root d acc)"

datatype scan_error = WalkError | ReadDirError

definition findVideoFiles_generic :: "os_env \<Rightarrow> string \<Rightarrow> scan_error + string list" where
  "findVideoFiles_generic env basePath =
     (case WalkDir env basePath (walkFn env) [] of
        (videoFiles, True) \<Rightarrow> Inl WalkError
      | (videoFiles, False) \<Rightarrow> Inr videoFiles)"

subsection \<open>The filtered variant\<close>

text \<open>The regular expression \<^verbatim>\<open>^\d{8}$\<close>: in Go \<^verbatim>\<open>\d\<close> is an ASCII digit
  and \<^verbatim>\<open>$\<close> matches at the end of the text only.\<close>

definition isDigitByte :: "char \<Rightarrow> bool" where
  "isDigitByte c = (48 \<le> (of_char c :: nat) \<and> (of_char c :: nat) \<le> 57)"

definition isDateFormatDir :: "string \<Rightarrow> bool" where
  "isDateFormatDir dirName = (length dirName = 8 \<and> list_all isDigitByte dirName)"

definition findVideosInDir :: "os_env \<Rightarrow> string \<Rightarrow> scan_error + string list" where
  "findVideosInDir env dirPath =
     (case WalkDir env dirPath (walkFn env) [] of
        (videoFiles, True) \<Rightarrow> Inl WalkError
      | (videoFiles, False) \<Rightarrow> Inr videoFiles)"

text \<open>The first loop of \<^verbatim>\<open>findVideoFiles\<close>: the search roots among the entries.\<close>

fun dateFormatDirs :: "string \<Rightarrow> node list \<Rightarrow> string list" where
  "dateFormatDirs basePath [] = []"
| "dateFormatDirs basePath (entry # entries) =
     (if IsDir entry \<and> isDateFormatDir (Name entry)
      then Join basePath (Name entry) # dateFormatDirs basePath entries
      else dateFormatDirs basePath entries)"

text \<open>The second loop: a directory whose search fails is passed over.\<close>

fun searchDateDirs :: "os_env \<Rightarrow> string list \<Rightarrow> string list \<Rightarrow> string list" where
  "searchDateDirs env [] allVideoFiles = allVideoFiles"
| "searchDateDirs env (dateDir # rest) allVideoFiles =
     (case findVideosInDir env dateDir of
        Inl e \<Rightarrow> searchDateDirs env rest allVideoFiles
      | Inr videoFiles \<Rightarrow> searchDateDirs env rest (allVideoFiles @ videoFiles))"

definition findVideoFiles_filtered :: "os_env \<Rightarrow> string \<Rightarrow> scan_error + string list" where
  "findVideoFiles_filtered env basePath =
     (case readDir env basePath of
        None \<Rightarrow> Inl ReadDirError
      | Some entries \<Rightarrow>
          if dateFormatDirs basePath entries = [] then Inr []
          else Inr (searchDateDirs env (dateFormatDirs basePath entries) []))"

section \<open>The codec prober (filtered variant)\<close>

datatype probe_error = ProbeError

text \<open>
  \<^verbatim>\<open>getVideoCodec\<close> looks for \<^verbatim>\<open>ffprobe\<close> beside the encoder and falls back
  to the bare name when \<^verbatim>\<open>os.Stat\<close> reports that file missing; it runs the prober
  with its combined output captured, fails when the run fails, and otherwise returns the
  output with the white space trimmed.
\<close>

definition ffprobePathFor :: "os_env \<Rightarrow> world \<Rightarrow> string \<Rightarrow> string" where
  "ffprobePathFor env w ffmpegPath =
     (let ffmpegDir = Dir ffmpegPath;
          ffprobePath = Join ffmpegDir ''ffprobe'';
          ffprobePath = (if goos = ''windows'' then ffprobePath @ ''.exe'' else ffprobePath)
      in if Stat env w ffprobePath = ErrNotExist then ''ffprobe'' else ffprobePath)"

definition probeCommand :: "os_env \<Rightarrow> world \<Rightarrow> string \<Rightarrow> string \<Rightarrow> string list" where
  "probeCommand env w filePath ffmpegPath =
     [ffprobePathFor env w ffmpegPath,
      ''-v'', ''error'',
      ''-select_streams'', ''v:0'',
      ''-show_entries'', ''stream=codec_name'',
      ''-of'', ''default=noprint_wrappers=1:nokey=1'',
      filePath]"

definition getVideoCodec ::
  "os_env \<Rightarrow> world \<Rightarrow> string \<Rightarrow> string \<Rightarrow> (probe_error + string) \<times> world" where
  "getVideoCodec env w filePath ffmpegPath =
     (case Run env w (probeCommand env w filePath ffmpegPath) of
        (r, w') \<Rightarrow>
          if procError r then (Inl ProbeError, w')
          else (Inr (TrimSpace (trimFunc env) (trimRightFunc env) (procOutput r)), w'))"

section \<open>The conversion driver\<close>

datatype encode_error = EncodeError

text \<open>
  The output name, the command line and the run of the encoder are common to both
  variants of \<^verbatim>\<open>convertVideoToAV1\<close>; they differ in the directory of the output
  and in the check the filtered variant makes first: a failed probe is logged and the
  conversion goes on, a codec name that contains \<^verbatim>\<open>av1\<close> makes it return nil at
  once.
\<close>

definition outputFileName :: "string \<Rightarrow> string" where
  "outputFileName inputPath =
     (let baseName = Base inputPath;
          ext = Ext baseName
      in TrimSuffix baseName ext @ ''_av1.mkv'')"

definition encoderCommand :: "string \<Rightarrow> string \<Rightarrow> string \<Rightarrow> string list" where
  "encoderCommand ffmpegPath inputPath fullOutputPath =
     [ffmpegPath,
      ''-i'', inputPath,
      ''-c:v'', ''av1_qsv'',
      ''-c:a'', ''copy'',
      ''-y'',
      fullOutputPath]"

definition runEncoder ::
  "os_env \<Rightarrow> world \<Rightarrow> string list \<Rightarrow> encode_error option \<times> world" where
  "runEncoder env w cmd =
     (case Run env w cmd of
        (r, w') \<Rightarrow> if procError r then (Some EncodeError, w') else (None, w'))"

definition fullOutputPath_generic :: "string \<Rightarrow> string \<Rightarrow> string" where
  "fullOutputPath_generic inputPath outputPath = Join outputPath (outputFileName inputPath)"

definition convertVideoToAV1_generic ::
  "os_env \<Rightarrow> world \<Rightarrow> string \<Rightarrow> string \<Rightarrow> string \<Rightarrow> encode_error option \<times> world" where
  "convertVideoToAV1_generic env w inputPath outputPath ffmpegPath =
     runEncoder env w
       (encoderCommand ffmpegPath inputPath (fullOutputPath_generic inputPath outputPath))"

definition fullOutputPath_filtered :: "string \<Rightarrow> string" where
  "fullOutputPath_filtered inputPath = Join (Dir inputPath) (outputFileName inputPath)"

definition isAV1 :: "os_env \<Rightarrow> string \<Rightarrow> bool" where
  "isAV1 env codec = Contains (ToLower (mapToLower env) codec) ''av1''"

definition convertVideoToAV1_filtered ::
  "os_env \<Rightarrow> world \<Rightarrow> string \<Rightarrow> string \<Rightarrow> encode_error option \<times> world" where
  "convertVideoToAV1_filtered env w inputPath ffmpegPath =
     (case getVideoCodec env w inputPath ffmpegPath of
        (Inl err, w') \<Rightarrow>
          runEncoder env w'
            (encoderCommand ffmpegPath inputPath (fullOutputPath_filtered inputPath))
      | (Inr codec, w') \<Rightarrow>
          if isAV1 env codec then (None, w')
          else runEncoder env w'
                 (encoderCommand ffmpegPath inputPath (fullOutputPath_filtered inputPath)))"

section \<open>The run controller\<close>

record counts =
  successCount :: nat
  errorCount :: nat

record counts_filtered = counts +
  skippedCount :: nat

definition counts0 :: counts where
  "counts0 = \<lparr>successCount = 0, errorCount = 0\<rparr>"

definition counts_filtered0 :: counts_filtered where
  "counts_filtered0 = \<lparr>successCount = 0, errorCount = 0, skippedCount = 0\<rparr>"

text \<open>The body of the loop of \<^verbatim>\<open>main\<close>, generic variant.\<close>

definition processFile_generic ::
  "os_env \<Rightarrow> Config \<Rightarrow> string \<Rightarrow> counts \<times> world \<Rightarrow> counts \<times> world" where
  "processFile_generic env config file s =
     (case s of (c, w) \<Rightarrow>
        (case convertVideoToAV1_generic env w file (OutputPath config) (FfmpegPath config) of
           (Some err, w') \<Rightarrow> (c\<lparr>errorCount := errorCount c + 1\<rparr>, w')
         | (None, w') \<Rightarrow> (c\<lparr>successCount := successCount c + 1\<rparr>, w')))"

fun processFiles_generic ::
  "os_env \<Rightarrow> Config \<Rightarrow> string list \<Rightarrow> counts \<times> world \<Rightarrow> counts \<times> world" where
  "processFiles_generic env config [] s = s"
| "processFiles_generic env config (file # videoFiles) s =
     processFiles_generic env config videoFiles (processFile_generic env config file s)"

text \<open>The test \<^verbatim>\<open>checkErr == nil && strings.Contains(strings.ToLower(codec), "av1")\<close>
  on what the prober returned.\<close>

definition skipCheck :: "os_env \<Rightarrow> probe_error + string \<Rightarrow> bool" where
  "skipCheck env codec = (case codec of Inl checkErr \<Rightarrow> False | Inr name \<Rightarrow> isAV1 env name)"

text \<open>The body of the loop of \<^verbatim>\<open>main\<close>, filtered variant.\<close>

definition processFile_filtered ::
  "os_env \<Rightarrow> Config_filtered \<Rightarrow> string \<Rightarrow> counts_filtered \<times> world \<Rightarrow> counts_filtered \<times> world" where
  "processFile_filtered env config file s =
     (case s of (c, w) \<Rightarrow>
        (case getVideoCodec env w file (FfmpegPath config) of
           (codec, w1) \<Rightarrow>
             if skipCheck env codec
             then (c\<lparr>skippedCount := skippedCount c + 1\<rparr>, w1)
             else
               (case convertVideoToAV1_filtered env w1 file (FfmpegPath config) of
                  (Some err, w2) \<Rightarrow> (c\<lparr>errorCount := errorCount c + 1\<rparr>, w2)
                | (None, w2) \<Rightarrow> (c\<lparr>successCount := successCount c + 1\<rparr>, w2))))"

fun processFiles_filtered ::
  "os_env \<Rightarrow> Config_filtered \<Rightarrow> string list \<Rightarrow> counts_filtered \<times> world \<Rightarrow> counts_filtered \<times> world" where
  "processFiles_filtered env config [] s = s"
| "processFiles_filtered env config (file # videoFiles) s =
     processFiles_filtered env config videoFiles (processFile_filtered env config file s)"

text \<open>
  A run of \<^verbatim>\<open>main\<close>: the exit code of the process (\<^verbatim>\<open>log.Fatalf\<close> exits
  with 1, a return from \<^verbatim>\<open>main\<close> with 0), the counters of the summary line when it
  is printed, and the world at the end.
\<close>

record 'c run =
  exitCode :: nat
  summary :: "'c option"
  finalWorld :: world

definition main_generic :: "os_env \<Rightarrow> counts run" where
  "main_generic env =
     (case loadConfig_generic env world0 ''config.json'' of
        (Inl err, w) \<Rightarrow> \<lparr>exitCode = 1, summary = None, finalWorld = w\<rparr>
      | (Inr config, w) \<Rightarrow>
          (case findVideoFiles_generic env (BasePath config) of
             Inl err \<Rightarrow> \<lparr>exitCode = 1, summary = None, finalWorld = w\<rparr>
           | Inr videoFiles \<Rightarrow>
               if length videoFiles = 0 then \<lparr>exitCode = 0, summary = None, finalWorld = w\<rparr>
               else
                 (case processFiles_generic env config videoFiles (counts0, w) of
                    (c, w') \<Rightarrow> \<lparr>exitCode = 0, summary = Some c, finalWorld = w'\<rparr>)))"

definition main_filtered :: "os_env \<Rightarrow> counts_filtered run" where
  "main_filtered env =
     (case loadConfig_filtered env world0 ''config.json'' of
        (Inl err, w) \<Rightarrow> \<lparr>exitCode = 1, summary = None, finalWorld = w\<rparr>
      | (Inr config, w) \<Rightarrow>
          (case findVideoFiles_filtered env (BasePath config) of
             Inl err \<Rightarrow> \<lparr>exitCode = 1, summary = None, finalWorld = w\<rparr>
           | Inr videoFiles \<Rightarrow>
               if length videoFiles = 0 then \<lparr>exitCode = 0, summary = None, finalWorld = w\<rparr>
               else
                 (case processFiles_filtered env config videoFiles (counts_filtered0, w) of
                    (c, w') \<Rightarrow> \<lparr>exitCode = 0, summary = Some c, finalWorld = w'\<rparr>)))"

section \<open>What a scan is expected to find\<close>

text \<open>
  The entries of a tree as \<^verbatim>\<open>WalkDir\<close> names them: every entry with its path,
  directories before their content, in the order of the directory listings.
\<close>

fun entriesAt :: "string \<Rightarrow> node \<Rightarrow> (string \<times> node) list"
and entriesBelow :: "string \<Rightarrow> node list \<Rightarrow> (string \<times> node) list" where
  "entriesAt path (NonDir nm t) = [(path, NonDir nm t)]"
| "entriesAt path (Directory nm dirs rderr) =
     (path, Directory nm dirs rderr) # entriesBelow path dirs"
| "entriesBelow path [] = []"
| "entriesBelow path (d # ds) = entriesAt (Join path (Name d)) d @ entriesBelow path ds"

text \<open>The seven extensions, and the entries a scan reports: those that are not
  directories and whose extension, lowered, is one of the seven.\<close>

definition videoSuffixes :: "string list" where
  "videoSuffixes = [''.mp4'', ''.avi'', ''.mkv'', ''.mov'', ''.wmv'', ''.flv'', ''.webm'']"

definition isVideoEntry :: "os_env \<Rightarrow> string \<times> node \<Rightarrow> bool" where
  "isVideoEntry env e =
     (\<not> IsDir (snd e) \<and> ToLower (mapToLower env) (Ext (fst e)) \<in> set videoSuffixes)"

text \<open>Regular files, and trees that hold nothing but directories and regular files.\<close>

fun isRegular :: "node \<Rightarrow> bool" where
  "isRegular (NonDir nm t) = (t = Regular)"
| "isRegular (Directory nm dirs rderr) = False"

fun onlyRegular :: "node \<Rightarrow> bool" where
  "onlyRegular (NonDir nm t) = (t = Regular)"
| "onlyRegular (Directory nm dirs rderr) = list_all onlyRegular dirs"

text \<open>A directory name of exactly eight ASCII digits.\<close>

definition eightDigits :: "string \<Rightarrow> bool" where
  "eightDigits name = (length name = 8 \<and> set name \<subseteq> set ''0123456789'')"

section \<open>Example environments\<close>

text \<open>
  A small installation used to run the model: \<^verbatim>\<open>config.json\<close> names the base
  path \<^verbatim>\<open>/media\<close> (and, for the generic variant, the output path
  \<^verbatim>\<open>/out\<close>, which does not exist yet); \<^verbatim>\<open>/media\<close> holds the date
  directory \<^verbatim>\<open>20240101\<close> with \<^verbatim>\<open>a.mp4\<close> and the directory
  \<^verbatim>\<open>notadate\<close> with \<^verbatim>\<open>b.mkv\<close>; the prober answers \<^verbatim>\<open>h264\<close>
  and the encoder exits with 0.
\<close>

definition exampleDateDir :: node where
  "exampleDateDir = Directory ''20240101'' [NonDir ''a.mp4'' Regular] False"

definition exampleOtherDir :: node where
  "exampleOtherDir = Directory ''notadate'' [NonDir ''b.mkv'' Regular] False"

definition exampleEnv :: os_env where
  "exampleEnv =
     \<lparr>readFile = (\<lambda>name. if name = ''config.json'' then Some ''{}'' else None),
      unmarshal = (\<lambda>b. Some \<lparr>BasePath = ''/media'', FfmpegPath = [], OutputPath = ''/out''\<rparr>),
      unmarshal_filtered = (\<lambda>b. Some \<lparr>BasePath = ''/media'', FfmpegPath = []\<rparr>),
      statOracle = (\<lambda>h name. if name = ''/media'' then StatOk True else ErrNotExist),
      mkdirAllOk = (\<lambda>path. True),
      lookPath = (\<lambda>name. name = ''ffmpeg''),
      lstatTree = (\<lambda>name.
         if name = ''/media'' then Some (Directory ''media'' [exampleDateDir, exampleOtherDir] False)
         else if name = ''/media/20240101'' then Some exampleDateDir
         else None),
      readDir = (\<lambda>name. if name = ''/media'' then Some [exampleDateDir, exampleOtherDir] else None),
      runProc = (\<lambda>h cmd. if take 1 cmd = [''ffprobe''] then Exited 0 (''h264'' @ [CHR 0x0A])
                           else Exited 0 []),
      mapToLower = (\<lambda>s. s),
      trimFunc = (\<lambda>s. s),
      trimRightFunc = (\<lambda>s. s)\<rparr>"

definition exampleConfig :: Config where
  "exampleConfig = \<lparr>BasePath = ''/media'', FfmpegPath = ''ffmpeg'', OutputPath = ''/out''\<rparr>"

definition exampleConfig_filtered :: Config_filtered where
  "exampleConfig_filtered = \<lparr>BasePath = ''/media'', FfmpegPath = ''ffmpeg''\<rparr>"

text \<open>A directory that holds a symbolic link named like a video.\<close>

definition symlinkTree :: node where
  "symlinkTree = Directory ''v'' [NonDir ''clip.mp4'' Symlink] False"

definition symlinkEnv :: os_env where
  "symlinkEnv = exampleEnv\<lparr>lstatTree := (\<lambda>name. if name = ''/v'' then Some symlinkTree else None)\<rparr>"

text \<open>A directory with the extensions \<^verbatim>\<open>.mp4\<close>, \<^verbatim>\<open>.MKV\<close>, \<^verbatim>\<open>.txt\<close>
  and \<^verbatim>\<open>.mov\<close>, and a subdirectory that is itself named like a video.\<close>

definition mixedTree :: node where
  "mixedTree = Directory ''v''
     [NonDir ''a.mp4'' Regular, NonDir ''b.MKV'' Regular, NonDir ''c.txt'' Regular,
      NonDir ''d.mov'' Regular, Directory ''e.avi'' [NonDir ''f.webm'' Regular, NonDir ''g'' Regular] False]
     False"

definition mixedEnv :: os_env where
  "mixedEnv = exampleEnv\<lparr>lstatTree := (\<lambda>name. if name = ''/v'' then Some mixedTree else None)\<rparr>"

text \<open>Children of the base path for the filtered scan: one date directory, a file whose
  name starts with a date, a file named like a date, a directory with a dashed date, and
  a directory with another name.\<close>

definition dateEntries :: "node list" where
  "dateEntries =
     [Directory ''20240101'' [NonDir ''a.mp4'' Regular] False,
      NonDir ''20240101file.txt'' Regular,
      NonDir ''20240102'' Regular,
      Directory ''2024-01-01'' [NonDir ''c.mp4'' Regular] False,
      Directory ''notadate'' [NonDir ''b.mkv'' Regular] False]"

definition dateEnv :: os_env where
  "dateEnv = exampleEnv\<lparr>readDir := (\<lambda>name. if name = ''/media'' then Some dateEntries else None)\<rparr>"

definition noDateEnv :: os_env where
  "noDateEnv = exampleEnv\<lparr>readDir := (\<lambda>name. if name = ''/media'' then Some [exampleOtherDir] else None)\<rparr>"

text \<open>A configuration file without a base path, and a file system on which no
  directory can be made.\<close>

definition noBasePathEnv :: os_env where
  "noBasePathEnv = exampleEnv
     \<lparr>unmarshal := (\<lambda>b. Some \<lparr>BasePath = [], FfmpegPath = ''ffmpeg'', OutputPath = ''/out''\<rparr>),
      unmarshal_filtered := (\<lambda>b. Some \<lparr>BasePath = [], FfmpegPath = ''ffmpeg''\<rparr>)\<rparr>"

definition readOnlyEnv :: os_env where
  "readOnlyEnv = exampleEnv\<lparr>mkdirAllOk := (\<lambda>path. False)\<rparr>"

text \<open>Three variations of the subprocesses: the encoder exits with 1 on every file; the
  prober cannot be started; the prober fails the first time it is run and answers
  \<^verbatim>\<open>av1\<close> afterwards.\<close>

definition failingEncoderEnv :: os_env where
  "failingEncoderEnv = exampleEnv
     \<lparr>runProc := (\<lambda>h cmd. if take 1 cmd = [''ffprobe''] then Exited 0 (''h264'' @ [CHR 0x0A])
                          else Exited 1 [])\<rparr>"


definition flakyProberEnv :: os_env where
  "flakyProberEnv = exampleEnv
     \<lparr>runProc := (\<lambda>h cmd. if take 1 cmd = [''ffprobe'']
                          then (if h = [] then Exited 1 [] else Exited 0 (''av1'' @ [CHR 0x0A]))
                          else Exited 0 [])\<rparr>"

section \<open>Notions for reasoning about cleaned paths\<close>

text \<open>A plain name: a non-empty path element without separator that is neither
  \<^verbatim>\<open>.\<close> nor \<^verbatim>\<open>..\<close>.\<close>

definition plainName :: "string \<Rightarrow> bool" where
  "plainName n = (n \<noteq> [] \<and> list_all notSeparator n \<and> n \<noteq> ''.'' \<and> n \<noteq> ''..'')"

text \<open>The tests of the loop of \<^verbatim>\<open>Clean\<close>, named: the element at the head of the
  input is \<^verbatim>\<open>.\<close>, or \<^verbatim>\<open>..\<close>; and the separator put before an element.\<close>

definition isDot :: "char \<Rightarrow> string \<Rightarrow> bool" where
  "isDot c cs = (c = CHR ''.'' \<and> (cs = [] \<or> isPathSeparator (hd cs)))"

definition isDotDot :: "char \<Rightarrow> string \<Rightarrow> bool" where
  "isDotDot c cs = (c = CHR ''.'' \<and> take 1 cs = ''.'' \<and>
                    (drop 1 cs = [] \<or> isPathSeparator (hd (drop 1 cs))))"

definition addSlash :: "bool \<Rightarrow> string \<Rightarrow> string" where
  "addSlash rooted out =
     (if rooted \<and> length out \<noteq> 1 \<or> \<not> rooted \<and> length out \<noteq> 0 then out @ ''/'' else out)"

text \<open>
  The loop of \<^verbatim>\<open>Clean\<close> seen element by element, for the proofs: what one path
  element does to the output buffer and to \<open>dotdot\<close>, and the loop as a function
  that returns both.
\<close>

definition elementStep :: "bool \<Rightarrow> string \<times> nat \<Rightarrow> string \<Rightarrow> string \<times> nat" where
  "elementStep rooted st e =
     (case st of (out, dd) \<Rightarrow>
        if e = ''.'' then (out, dd)
        else if e = ''..'' then
          (if length out > dd then (take (backtrack out dd (length out - 1)) out, dd)
           else if \<not> rooted then
             ((if length out > 0 then out @ ''/'' else out) @ ''..'',
              length ((if length out > 0 then out @ ''/'' else out) @ ''..''))
           else (out, dd))
        else (addSlash rooted out @ e, dd))"

function cleanState :: "bool \<Rightarrow> string \<Rightarrow> string \<times> nat \<Rightarrow> string \<times> nat" where
  "cleanState rooted [] st = st"
| "cleanState rooted (c # cs) st =
     (if isPathSeparator c then cleanState rooted cs st
      else cleanState rooted (dropWhile notSeparator cs)
             (elementStep rooted st (c # takeWhile notSeparator cs)))"
  by pat_completeness auto

termination
  by (relation "measure (\<lambda>(rooted, path, st). length path)")
     (simp_all add: le_imp_less_Suc length_dropWhile_le)

text \<open>
  The shapes of a cleaned path: elements joined by single separators; the state of the
  loop after \<open>k\<close> leading \<^verbatim>\<open>..\<close> elements (relative paths only) and the plain
  elements \<open>es\<close>.
\<close>

fun joinElems :: "string list \<Rightarrow> string" where
  "joinElems [] = []"
| "joinElems [e] = e"
| "joinElems (e # f # es) = e @ ''/'' @ joinElems (f # es)"

definition stateOf :: "bool \<Rightarrow> nat \<Rightarrow> string list \<Rightarrow> string \<times> nat" where
  "stateOf rooted k es =
     (if rooted then (''/'' @ joinElems es, 1)
      else (joinElems (replicate k ''..'' @ es), length (joinElems (replicate k ''..''))))"

definition normalState :: "bool \<Rightarrow> string \<times> nat \<Rightarrow> bool" where
  "normalState rooted st = (\<exists>k es. list_all plainName es \<and> st = stateOf rooted k es)"

definition isClean :: "string \<Rightarrow> bool" where
  "isClean s =
     (\<exists>k es. list_all plainName es \<and>
        (s = ''/'' @ joinElems es \<or> s = ''.'' \<or>
         s = joinElems (replicate k ''..'' @ es) \<and> s \<noteq> []))"

section \<open>Properties of the run controller\<close>

lemma processFile_generic_step:
  "(successCount (fst (processFile_generic env config f s)) = successCount (fst s) + 1 \<and>
    errorCount (fst (processFile_generic env config f s)) = errorCount (fst s))
   \<or>
   (successCount (fst (processFile_generic env config f s)) = successCount (fst s) \<and>
    errorCount (fst (processFile_generic env config f s)) = errorCount (fst s) + 1)"
  by (cases s) (auto simp: processFile_generic_def split: prod.splits option.splits)

lemma processFiles_generic_sum:
  "successCount (fst (processFiles_generic env config fs s)) +
   errorCount (fst (processFiles_generic env config fs s)) =
   successCount (fst s) + errorCount (fst s) + length fs"
proof (induction fs arbitrary: s)
  case Nil
  show ?case by simp
next
  case (Cons f fs)
  from processFile_generic_step [of env config f s]
       Cons.IH [of "processFile_generic env config f s"]
  show ?case by auto
qed

lemma processFile_filtered_step:
  "(successCount (fst (processFile_filtered env config f s)) = successCount (fst s) + 1 \<and>
    errorCount (fst (processFile_filtered env config f s)) = errorCount (fst s) \<and>
    skippedCount (fst (processFile_filtered env config f s)) = skippedCount (fst s))
   \<or>
   (successCount (fst (processFile_filtered env config f s)) = successCount (fst s) \<and>
    errorCount (fst (processFile_filtered env config f s)) = errorCount (fst s) + 1 \<and>
    skippedCount (fst (processFile_filtered env config f s)) = skippedCount (fst s))
   \<or>
   (successCount (fst (processFile_filtered env config f s)) = successCount (fst s) \<and>
    errorCount (fst (processFile_filtered env config f s)) = errorCount (fst s) \<and>
    skippedCount (fst (processFile_filtered env config f s)) = skippedCount (fst s) + 1)"
  by (cases s)
     (auto simp: processFile_filtered_def split: prod.splits option.splits)

lemma processFiles_filtered_sum:
  "successCount (fst (processFiles_filtered env config fs s)) +
   errorCount (fst (processFiles_filtered env config fs s)) +
   skippedCount (fst (processFiles_filtered env config fs s)) =
   successCount (fst s) + errorCount (fst s) + skippedCount (fst s) + length fs"
proof (induction fs arbitrary: s)
  case Nil
  show ?case by simp
next
  case (Cons f fs)
  from processFile_filtered_step [of env config f s]
       Cons.IH [of "processFile_filtered env config f s"]
  show ?case by auto
qed

text \<open>
  Claim C9. In both variants every discovered video file contributes exactly one
  increment to exactly one run counter: one pass of the loop body raises one counter by
  one and leaves the others alone, and after the loop, started from zero, the counters
  add up to the number of files (succeeded + failed in the generic variant, succeeded +
  failed + skipped in the filtered variant).
\<close>

theorem C9_counters_add_up_to_files:
  "((successCount (fst (processFile_generic env config f s)) = successCount (fst s) + 1 \<and>
     errorCount (fst (processFile_generic env config f s)) = errorCount (fst s))
    \<or>
    (successCount (fst (processFile_generic env config f s)) = successCount (fst s) \<and>
     errorCount (fst (processFile_generic env config f s)) = errorCount (fst s) + 1))
   \<and>
   successCount (fst (processFiles_generic env config videoFiles (counts0, w))) +
   errorCount (fst (processFiles_generic env config videoFiles (counts0, w))) =
   length videoFiles
   \<and>
   ((successCount (fst (processFile_filtered env config' f s')) = successCount (fst s') + 1 \<and>
     errorCount (fst (processFile_filtered env config' f s')) = errorCount (fst s') \<and>
     skippedCount (fst (processFile_filtered env config' f s')) = skippedCount (fst s'))
    \<or>
    (successCount (fst (processFile_filtered env config' f s')) = successCount (fst s') \<and>
     errorCount (fst (processFile_filtered env config' f s')) = errorCount (fst s') + 1 \<and>
     skippedCount (fst (processFile_filtered env config' f s')) = skippedCount (fst s'))
    \<or>
    (successCount (fst (processFile_filtered env config' f s')) = successCount (fst s') \<and>
     errorCount (fst (processFile_filtered env config' f s')) = errorCount (fst s') \<and>
     skippedCount (fst (processFile_filtered env config' f s')) = skippedCount (fst s') + 1))
   \<and>
   successCount (fst (processFiles_filtered env config' videoFiles (counts_filtered0, w))) +
   errorCount (fst (processFiles_filtered env config' videoFiles (counts_filtered0, w))) +
   skippedCount (fst (processFiles_filtered env config' videoFiles (counts_filtered0, w))) =
   length videoFiles"
proof (intro conjI)
  show "successCount (fst (processFiles_generic env config videoFiles (counts0, w))) +
        errorCount (fst (processFiles_generic env config videoFiles (counts0, w))) =
        length videoFiles"
    using processFiles_generic_sum [of env config videoFiles "(counts0, w)"]
    by (simp add: counts0_def)
  show "successCount (fst (processFiles_filtered env config' videoFiles (counts_filtered0, w))) +
        errorCount (fst (processFiles_filtered env config' videoFiles (counts_filtered0, w))) +
        skippedCount (fst (processFiles_filtered env config' videoFiles (counts_filtered0, w))) =
        length videoFiles"
    using processFiles_filtered_sum [of env config' videoFiles "(counts_filtered0, w)"]
    by (simp add: counts_filtered0_def)
qed (rule processFile_generic_step processFile_filtered_step)+

theorem C9_counters_add_up_to_files_witness:
  "successCount (fst (processFiles_generic exampleEnv exampleConfig
      [''/media/20240101/a.mp4'', ''/media/notadate/b.mkv''] (counts0, world0))) = 2 \<and>
   errorCount (fst (processFiles_generic exampleEnv exampleConfig
      [''/media/20240101/a.mp4'', ''/media/notadate/b.mkv''] (counts0, world0))) = 0 \<and>
   successCount (fst (processFiles_generic exampleEnv exampleConfig
      [''/media/20240101/a.mp4'', ''/media/notadate/b.mkv''] (counts0, world0))) +
   errorCount (fst (processFiles_generic exampleEnv exampleConfig
      [''/media/20240101/a.mp4'', ''/media/notadate/b.mkv''] (counts0, world0))) =
   length [''/media/20240101/a.mp4'', ''/media/notadate/b.mkv'']"
proof -
  have "successCount (fst (processFiles_generic exampleEnv exampleConfig
      [''/media/20240101/a.mp4'', ''/media/notadate/b.mkv''] (counts0, world0))) = 2"
    by code_simp
  moreover have "errorCount (fst (processFiles_generic exampleEnv exampleConfig
      [''/media/20240101/a.mp4'', ''/media/notadate/b.mkv''] (counts0, world0))) = 0"
    by code_simp
  ultimately show ?thesis
    using C9_counters_add_up_to_files [of exampleEnv exampleConfig _ _
      "[''/media/20240101/a.mp4'', ''/media/notadate/b.mkv'']" world0]
    by simp
qed

section \<open>Properties of the conversion driver\<close>

text \<open>
  Claim C10. The output-path naming is not injective: the distinct inputs
  \<^verbatim>\<open>/d/a.mp4\<close> and \<^verbatim>\<open>/d/a.mkv\<close> of one directory both get the output
  path \<^verbatim>\<open>/d/a_av1.mkv\<close> in the filtered variant, and one common output path under
  any output directory in the generic variant; both encoder commands carry the overwrite
  flag \<^verbatim>\<open>-y\<close> before that same path, and a run over the two files spawns the
  encoder twice on the one output path. (What the encoder then does to the file under
  \<^verbatim>\<open>-y\<close> is outside the program.)
\<close>

theorem C10_output_naming_not_injective:
  "''/d/a.mp4'' \<noteq> ''/d/a.mkv'' \<and>
   fullOutputPath_filtered ''/d/a.mp4'' = ''/d/a_av1.mkv'' \<and>
   fullOutputPath_filtered ''/d/a.mkv'' = ''/d/a_av1.mkv'' \<and>
   \<not> inj fullOutputPath_filtered \<and>
   fullOutputPath_generic ''/d/a.mp4'' outputPath = fullOutputPath_generic ''/d/a.mkv'' outputPath \<and>
   \<not> inj (\<lambda>inputPath. fullOutputPath_generic inputPath outputPath) \<and>
   drop 7 (encoderCommand ffmpegPath ''/d/a.mp4'' (fullOutputPath_filtered ''/d/a.mp4'')) =
     [''-y'', ''/d/a_av1.mkv''] \<and>
   drop 7 (encoderCommand ffmpegPath ''/d/a.mkv'' (fullOutputPath_filtered ''/d/a.mkv'')) =
     [''-y'', ''/d/a_av1.mkv''] \<and>
   map (drop 7)
     (spawned (snd (processFiles_generic exampleEnv exampleConfig [''/d/a.mkv'', ''/d/a.mp4'']
                      (counts0, world0)))) =
     [[''-y'', ''/out/a_av1.mkv''], [''-y'', ''/out/a_av1.mkv'']]"
proof -
  have ne: "''/d/a.mp4'' \<noteq> ''/d/a.mkv''" by simp
  have f1: "fullOutputPath_filtered ''/d/a.mp4'' = ''/d/a_av1.mkv''" by code_simp
  have f2: "fullOutputPath_filtered ''/d/a.mkv'' = ''/d/a_av1.mkv''" by code_simp
  have n1: "outputFileName ''/d/a.mp4'' = ''a_av1.mkv''" by code_simp
  have n2: "outputFileName ''/d/a.mkv'' = ''a_av1.mkv''" by code_simp
  have g: "fullOutputPath_generic ''/d/a.mp4'' outputPath =
           fullOutputPath_generic ''/d/a.mkv'' outputPath"
    by (simp add: fullOutputPath_generic_def n1 n2)
  have i1: "\<not> inj fullOutputPath_filtered"
  proof
    assume "inj fullOutputPath_filtered"
    then have "''/d/a.mp4'' = ''/d/a.mkv''"
      by (rule injD) (simp only: f1 f2)
    with ne show False by simp
  qed
  have i2: "\<not> inj (\<lambda>inputPath. fullOutputPath_generic inputPath outputPath)"
  proof
    assume "inj (\<lambda>inputPath. fullOutputPath_generic inputPath outputPath)"
    then have "''/d/a.mp4'' = ''/d/a.mkv''"
      by (rule injD) (simp only: g)
    with ne show False by simp
  qed
  have d1: "drop 7 (encoderCommand ffmpegPath ''/d/a.mp4'' (fullOutputPath_filtered ''/d/a.mp4'')) =
            [''-y'', ''/d/a_av1.mkv'']"
    by (simp add: encoderCommand_def f1)
  have d2: "drop 7 (encoderCommand ffmpegPath ''/d/a.mkv'' (fullOutputPath_filtered ''/d/a.mkv'')) =
            [''-y'', ''/d/a_av1.mkv'']"
    by (simp add: encoderCommand_def f2)
  have r: "map (drop 7)
     (spawned (snd (processFiles_generic exampleEnv exampleConfig [''/d/a.mkv'', ''/d/a.mp4'']
                      (counts0, world0)))) =
     [[''-y'', ''/out/a_av1.mkv''], [''-y'', ''/out/a_av1.mkv'']]"
    by code_simp
  from ne f1 f2 i1 g i2 d1 d2 r show ?thesis by blast
qed

section \<open>Properties of the directory scanner\<close>

lemma videoExtensions_iff: "(videoExtensions ext = None) = (ext \<notin> set videoSuffixes)"
  by (auto simp: videoExtensions_def videoSuffixes_def)

lemma walkFn_entry:
  "walkFn env path (Some n) False acc =
     (acc @ map fst (filter (isVideoEntry env) [(path, n)]), False)"
  by (simp add: walkFn_def isVideoEntry_def videoExtensions_iff Let_def)

lemma walkFn_error: "walkFn env path d True acc = (acc, False)"
  by (simp add: walkFn_def)

lemma walkDir_walkFn_aux:
  "fn = walkFn env \<Longrightarrow>
   walkDir fn path n acc =
     (acc @ map fst (filter (isVideoEntry env) (entriesAt path n)), False)"
  "fn = walkFn env \<Longrightarrow>
   walkEntries fn path ns acc =
     (acc @ map fst (filter (isVideoEntry env) (entriesBelow path ns)), False)"
proof (induction fn path n acc and fn path ns acc rule: walkDir_walkEntries.induct)
  case (1 fn path nm t acc)
  then show ?case by (simp add: walkFn_entry)
next
  case (2 fn path nm dirs rderr acc)
  have d: "\<not> isVideoEntry env (path, Directory nm dirs rderr)"
    by (simp add: isVideoEntry_def)
  have a: "fn path (Some (Directory nm dirs rderr)) False acc = (acc, False)"
    using "2.prems" by (simp add: walkFn_entry d)
  have b: "(if rderr then fn path (Some (Directory nm dirs rderr)) True acc
            else (acc, False)) = (acc, False)"
    using "2.prems" by (simp add: walkFn_error)
  from "2.IH" [OF a [symmetric] refl b [symmetric] refl "2.prems"]
  show ?case by (simp add: a b d)
next
  case (3 fn path acc)
  show ?case by simp
next
  case (4 fn path d1 rest acc)
  let ?acc1 = "acc @ map fst (filter (isVideoEntry env) (entriesAt (Join path (Name d1)) d1))"
  have a: "walkDir fn (Join path (Name d1)) d1 acc = (?acc1, False)"
    by (rule "4.IH"(1) [OF "4.prems"])
  from "4.IH"(2) [OF a [symmetric] refl "4.prems"]
  show ?case by (simp add: a)
qed

lemmas walkDir_walkFn = walkDir_walkFn_aux [OF refl]

lemma findVideoFiles_generic_eq:
  "findVideoFiles_generic env basePath =
     Inr (case lstatTree env basePath of
            None \<Rightarrow> []
          | Some tree \<Rightarrow> map fst (filter (isVideoEntry env) (entriesAt basePath tree)))"
  by (simp add: findVideoFiles_generic_def WalkDir_def walkDir_walkFn walkFn_error
           split: option.splits)

lemma entries_onlyRegular:
  "onlyRegular n \<Longrightarrow>
   list_all (\<lambda>e. IsDir (snd e) \<or> isRegular (snd e)) (entriesAt path n)"
  "list_all onlyRegular ns \<Longrightarrow>
   list_all (\<lambda>e. IsDir (snd e) \<or> isRegular (snd e)) (entriesBelow path ns)"
  by (induction path n and path ns rule: entriesAt_entriesBelow.induct) simp_all

lemma regular_video_entries:
  assumes "onlyRegular n"
  shows "filter (isVideoEntry env) (entriesAt path n) =
         filter (\<lambda>e. isRegular (snd e) \<and>
                     ToLower (mapToLower env) (Ext (fst e)) \<in> set videoSuffixes)
           (entriesAt path n)"
proof (rule filter_cong [OF refl])
  fix e assume "e \<in> set (entriesAt path n)"
  with entries_onlyRegular(1) [OF assms, of path]
  have "IsDir (snd e) \<or> isRegular (snd e)" by (simp add: list_all_iff)
  then show "isVideoEntry env e =
     (isRegular (snd e) \<and> ToLower (mapToLower env) (Ext (fst e)) \<in> set videoSuffixes)"
    by (cases "snd e") (auto simp: isVideoEntry_def)
qed

text \<open>
  Claim C2, as amended. For every directory tree the scanner returns exactly the paths
  of the entries that are not directories (regular files, and also symbolic links and
  special files, which the walk lists without following them) and whose extension,
  lowered, is one of \<^verbatim>\<open>.mp4 .avi .mkv .mov .wmv .flv .webm\<close>, in walk order; no
  directory path is returned; \<^verbatim>\<open>.MKV\<close> lowers to \<^verbatim>\<open>.mkv\<close> and
  \<^verbatim>\<open>.txt\<close> stays outside the list. If the base path cannot be examined the result
  is empty. On a tree that holds nothing but directories and regular files, the result
  is exactly the regular files with such an extension.
\<close>

theorem C2_scanner_returns_non_directory_video_entries:
  "findVideoFiles_generic env basePath =
     Inr (case lstatTree env basePath of
            None \<Rightarrow> []
          | Some tree \<Rightarrow> map fst (filter (isVideoEntry env) (entriesAt basePath tree))) \<and>
   isVideoEntry env (p, n) =
     (\<not> IsDir n \<and>
      ToLower (mapToLower env) (Ext p) \<in>
        set [''.mp4'', ''.avi'', ''.mkv'', ''.mov'', ''.wmv'', ''.flv'', ''.webm'']) \<and>
   ToLower (mapToLower env) ''.MKV'' = ''.mkv'' \<and>
   ToLower (mapToLower env) ''.txt'' = ''.txt'' \<and>
   (lstatTree env basePath = Some tree \<and> onlyRegular tree \<longrightarrow>
    findVideoFiles_generic env basePath =
      Inr (map fst (filter (\<lambda>e. isRegular (snd e) \<and>
                                 ToLower (mapToLower env) (Ext (fst e)) \<in>
                                   set [''.mp4'', ''.avi'', ''.mkv'', ''.mov'', ''.wmv'',
                                        ''.flv'', ''.webm''])
                      (entriesAt basePath tree))))"
proof -
  have "ToLower (mapToLower env) ''.MKV'' = ''.mkv''" by code_simp
  moreover have "ToLower (mapToLower env) ''.txt'' = ''.txt''" by code_simp
  moreover have "findVideoFiles_generic env basePath =
      Inr (map fst (filter (\<lambda>e. isRegular (snd e) \<and>
                                 ToLower (mapToLower env) (Ext (fst e)) \<in>
                                   set [''.mp4'', ''.avi'', ''.mkv'', ''.mov'', ''.wmv'',
                                        ''.flv'', ''.webm''])
                      (entriesAt basePath tree)))"
    if "lstatTree env basePath = Some tree" "onlyRegular tree"
    using that regular_video_entries [of tree env basePath]
    by (simp add: findVideoFiles_generic_eq videoSuffixes_def)
  ultimately show ?thesis
    by (simp add: findVideoFiles_generic_eq isVideoEntry_def videoSuffixes_def)
qed

theorem C2_scanner_returns_non_directory_video_entries_witness:
  "lstatTree mixedEnv ''/v'' = Some mixedTree \<and> onlyRegular mixedTree \<and>
   findVideoFiles_generic mixedEnv ''/v'' =
     Inr [''/v/a.mp4'', ''/v/b.MKV'', ''/v/d.mov'', ''/v/e.avi/f.webm'']"
proof -
  have t: "lstatTree mixedEnv ''/v'' = Some mixedTree \<and> onlyRegular mixedTree" by code_simp
  have "map fst (filter (isVideoEntry mixedEnv) (entriesAt ''/v'' mixedTree)) =
          [''/v/a.mp4'', ''/v/b.MKV'', ''/v/d.mov'', ''/v/e.avi/f.webm'']"
    by code_simp
  with t show ?thesis
    using C2_scanner_returns_non_directory_video_entries [of mixedEnv "''/v''"]
    by simp
qed

text \<open>
  The claim as it was stated speaks of regular files only. A symbolic link named
  \<^verbatim>\<open>clip.mp4\<close> is not a regular file, and the scanner returns it.
\<close>

theorem C2_symlink_counterexample:
  "lstatTree symlinkEnv ''/v'' = Some (Directory ''v'' [NonDir ''clip.mp4'' Symlink] False) \<and>
   findVideoFiles_generic symlinkEnv ''/v'' = Inr [''/v/clip.mp4'']"
  by code_simp

lemma isDigitByte_iff: "isDigitByte c \<longleftrightarrow> c \<in> set ''0123456789''"
proof -
  have "c \<in> set ''0123456789'' \<longleftrightarrow>
        (of_char c :: nat) \<in> of_char ` set ''0123456789''"
    by (rule inj_image_mem_iff [OF inj_of_char, symmetric])
  also have "\<dots> \<longleftrightarrow> (of_char c :: nat) \<in> {48, 49, 50, 51, 52, 53, 54, 55, 56, 57}"
    by simp
  also have "\<dots> \<longleftrightarrow> 48 \<le> (of_char c :: nat) \<and> (of_char c :: nat) \<le> 57"
    by (simp only: insert_iff empty_iff) presburger
  finally show ?thesis by (simp add: isDigitByte_def)
qed

lemma isDateFormatDir_iff: "isDateFormatDir name \<longleftrightarrow> eightDigits name"
  by (auto simp: isDateFormatDir_def eightDigits_def list_all_iff isDigitByte_iff simp del: set_simps)

lemma dateFormatDirs_eq:
  "dateFormatDirs basePath entries =
     map (\<lambda>e. Join basePath (Name e)) (filter (\<lambda>e. IsDir e \<and> eightDigits (Name e)) entries)"
  by (induction entries) (simp_all add: isDateFormatDir_iff)

lemma searchDateDirs_eq:
  "searchDateDirs env dirs acc =
     acc @ concat (map (\<lambda>d. case findVideosInDir env d of Inl e \<Rightarrow> [] | Inr vs \<Rightarrow> vs) dirs)"
  by (induction dirs arbitrary: acc) (simp_all split: sum.splits)

text \<open>
  Claim C3. In the filtered variant an immediate child of the root is a search root if
  and only if it is a directory and its name is exactly eight ASCII digits (no calendar
  check): the search roots are the joined paths of exactly those children, in order, and
  the scan returns the concatenated results of searching them. If no child qualifies the
  scan returns the empty list, not an error.
\<close>

theorem C3_search_roots_are_the_eight_digit_directories:
  "dateFormatDirs basePath entries =
     map (\<lambda>e. Join basePath (Name e))
       (filter (\<lambda>e. IsDir e \<and> length (Name e) = 8 \<and> set (Name e) \<subseteq> set ''0123456789'') entries) \<and>
   (readDir env basePath = Some entries \<longrightarrow>
      findVideoFiles_filtered env basePath =
        Inr (concat (map (\<lambda>d. case findVideosInDir env d of Inl e \<Rightarrow> [] | Inr vs \<Rightarrow> vs)
                      (dateFormatDirs basePath entries)))) \<and>
   (readDir env basePath = Some entries \<and>
    filter (\<lambda>e. IsDir e \<and> length (Name e) = 8 \<and> set (Name e) \<subseteq> set ''0123456789'') entries = [] \<longrightarrow>
      findVideoFiles_filtered env basePath = Inr [])"
proof -
  have d: "dateFormatDirs basePath entries =
     map (\<lambda>e. Join basePath (Name e))
       (filter (\<lambda>e. IsDir e \<and> length (Name e) = 8 \<and> set (Name e) \<subseteq> set ''0123456789'') entries)"
    using dateFormatDirs_eq [of basePath entries] by (simp only: eightDigits_def)
  have s: "readDir env basePath = Some entries \<longrightarrow>
      findVideoFiles_filtered env basePath =
        Inr (concat (map (\<lambda>d. case findVideosInDir env d of Inl e \<Rightarrow> [] | Inr vs \<Rightarrow> vs)
                      (dateFormatDirs basePath entries)))"
    by (simp add: findVideoFiles_filtered_def searchDateDirs_eq)
  have z: "readDir env basePath = Some entries \<and>
    filter (\<lambda>e. IsDir e \<and> length (Name e) = 8 \<and> set (Name e) \<subseteq> set ''0123456789'') entries = [] \<longrightarrow>
      findVideoFiles_filtered env basePath = Inr []"
  proof
    assume a: "readDir env basePath = Some entries \<and>
      filter (\<lambda>e. IsDir e \<and> length (Name e) = 8 \<and> set (Name e) \<subseteq> set ''0123456789'') entries = []"
    with d have "dateFormatDirs basePath entries = []" by simp
    with a show "findVideoFiles_filtered env basePath = Inr []"
      by (simp add: findVideoFiles_filtered_def)
  qed
  from d s z show ?thesis by blast
qed

theorem C3_search_roots_are_the_eight_digit_directories_witness:
  "readDir dateEnv ''/media'' = Some dateEntries \<and>
   dateFormatDirs ''/media'' dateEntries = [''/media/20240101''] \<and>
   findVideoFiles_filtered dateEnv ''/media'' = Inr [''/media/20240101/a.mp4''] \<and>
   readDir noDateEnv ''/media'' = Some [exampleOtherDir] \<and>
   filter (\<lambda>e. IsDir e \<and> length (Name e) = 8 \<and> set (Name e) \<subseteq> set ''0123456789'')
     [exampleOtherDir] = [] \<and>
   findVideoFiles_filtered noDateEnv ''/media'' = Inr []"
proof -
  have r1: "readDir dateEnv ''/media'' = Some dateEntries" by code_simp
  have d1: "dateFormatDirs ''/media'' dateEntries = [''/media/20240101'']" by code_simp
  have s1: "findVideosInDir dateEnv ''/media/20240101'' = Inr [''/media/20240101/a.mp4'']"
    by code_simp
  have r2: "readDir noDateEnv ''/media'' = Some [exampleOtherDir]" by code_simp
  have f2: "filter (\<lambda>e. IsDir e \<and> length (Name e) = 8 \<and> set (Name e) \<subseteq> set ''0123456789'')
     [exampleOtherDir] = []"
    by (simp add: exampleOtherDir_def)
  from C3_search_roots_are_the_eight_digit_directories [of "''/media''" dateEntries dateEnv] r1
  have "findVideoFiles_filtered dateEnv ''/media'' = Inr [''/media/20240101/a.mp4'']"
    by (simp add: d1 s1)
  moreover
  from C3_search_roots_are_the_eight_digit_directories [of "''/media''" "[exampleOtherDir]" noDateEnv] r2 f2
  have "findVideoFiles_filtered noDateEnv ''/media'' = Inr []"
    by blast
  ultimately show ?thesis using r1 d1 r2 f2 by blast
qed

section \<open>Properties of the configuration loader\<close>

text \<open>
  Claim C5. For every configuration file whose parsed \<^verbatim>\<open>BasePath\<close> is empty,
  loading fails with the missing-field error for \<^verbatim>\<open>BasePath\<close> and leaves the
  world as it was: \<^verbatim>\<open>os.MkdirAll\<close> is not called, in either variant, and in particular the
  generic variant does not make the output path. The whole run then exits with code 1 in
  the initial world.
\<close>

theorem C5_missing_base_path_fails_before_any_effect:
  "(readFile env filename = Some configFile \<and> unmarshal env configFile = Some parsed \<and>
    BasePath parsed = [] \<longrightarrow>
      loadConfig_generic env w filename = (Inl (MissingFieldError ''BasePath''), w)) \<and>
   (readFile env filename = Some configFile \<and> unmarshal_filtered env configFile = Some parsed' \<and>
    BasePath parsed' = [] \<longrightarrow>
      loadConfig_filtered env w filename = (Inl (MissingFieldError ''BasePath''), w)) \<and>
   (readFile env ''config.json'' = Some configFile \<and> unmarshal env configFile = Some parsed \<and>
    BasePath parsed = [] \<longrightarrow>
      main_generic env = \<lparr>exitCode = 1, summary = None, finalWorld = world0\<rparr>) \<and>
   (readFile env ''config.json'' = Some configFile \<and>
    unmarshal_filtered env configFile = Some parsed' \<and> BasePath parsed' = [] \<longrightarrow>
      main_filtered env = \<lparr>exitCode = 1, summary = None, finalWorld = world0\<rparr>) \<and>
   mkdirCalls world0 = []"
  by (simp add: loadConfig_generic_def loadConfig_filtered_def main_generic_def
        main_filtered_def world0_def)

theorem C5_missing_base_path_fails_before_any_effect_witness:
  "readFile noBasePathEnv ''config.json'' = Some ''{}'' \<and>
   unmarshal noBasePathEnv ''{}'' = Some \<lparr>BasePath = [], FfmpegPath = ''ffmpeg'', OutputPath = ''/out''\<rparr> \<and>
   unmarshal_filtered noBasePathEnv ''{}'' = Some \<lparr>BasePath = [], FfmpegPath = ''ffmpeg''\<rparr> \<and>
   loadConfig_generic noBasePathEnv world0 ''config.json'' =
     (Inl (MissingFieldError ''BasePath''), world0) \<and>
   loadConfig_filtered noBasePathEnv world0 ''config.json'' =
     (Inl (MissingFieldError ''BasePath''), world0) \<and>
   main_generic noBasePathEnv = \<lparr>exitCode = 1, summary = None, finalWorld = world0\<rparr> \<and>
   main_filtered noBasePathEnv = \<lparr>exitCode = 1, summary = None, finalWorld = world0\<rparr>"
proof -
  have r: "readFile noBasePathEnv ''config.json'' = Some ''{}''" by code_simp
  have u: "unmarshal noBasePathEnv ''{}'' =
             Some \<lparr>BasePath = [], FfmpegPath = ''ffmpeg'', OutputPath = ''/out''\<rparr>"
    by code_simp
  have u': "unmarshal_filtered noBasePathEnv ''{}'' = Some \<lparr>BasePath = [], FfmpegPath = ''ffmpeg''\<rparr>"
    by code_simp
  from r u u'
    C5_missing_base_path_fails_before_any_effect
      [of noBasePathEnv "''config.json''" "''{}''"
          "\<lparr>BasePath = [], FfmpegPath = ''ffmpeg'', OutputPath = ''/out''\<rparr>"
          world0 "\<lparr>BasePath = [], FfmpegPath = ''ffmpeg''\<rparr>"]
  show ?thesis by simp
qed

text \<open>
  Claim C6. In the generic variant, for a configuration that is valid otherwise (the file
  is read and parsed, both paths are non-empty, the base path is not reported missing)
  and whose output path does not exist: loading calls \<^verbatim>\<open>MkdirAll\<close> on it; if
  that succeeds the call is recorded as a success and \<^verbatim>\<open>os.Stat\<close>
  finds it as a directory afterwards, whether or not the encoder check then passes, and
  loading succeeds when the encoder is found; if it fails, loading fails with the
  directory-create error.
\<close>

theorem C6_missing_output_path_is_created:
  assumes "readFile env filename = Some configFile"
    and "unmarshal env configFile = Some parsed"
    and "BasePath parsed \<noteq> []"
    and "OutputPath parsed \<noteq> []"
    and "Stat env w (BasePath parsed) \<noteq> ErrNotExist"
    and "Stat env w (OutputPath parsed) = ErrNotExist"
  shows "(mkdirAllOk env (OutputPath parsed) \<longrightarrow>
            mkdirCalls (snd (loadConfig_generic env w filename)) =
              mkdirCalls w @ [(OutputPath parsed, True)] \<and>
            Stat env (snd (loadConfig_generic env w filename)) (OutputPath parsed) = StatOk True \<and>
            (fst (loadConfig_generic env w filename) =
               Inr (parsed\<lparr>FfmpegPath := defaultFfmpegPath (FfmpegPath parsed)\<rparr>) \<or>
             fst (loadConfig_generic env w filename) = Inl ExecutableNotFoundError \<or>
             fst (loadConfig_generic env w filename) = Inl ExecutableCheckError) \<and>
            (lookPath env (defaultFfmpegPath (FfmpegPath parsed)) \<longrightarrow>
               fst (loadConfig_generic env w filename) =
                 Inr (parsed\<lparr>FfmpegPath := defaultFfmpegPath (FfmpegPath parsed)\<rparr>))) \<and>
         (\<not> mkdirAllOk env (OutputPath parsed) \<longrightarrow>
            loadConfig_generic env w filename =
              (Inl DirectoryCreateError,
               w\<lparr>mkdirCalls := mkdirCalls w @ [(OutputPath parsed, False)]\<rparr>))"
  using assms
  by (auto simp: loadConfig_generic_def MkdirAll_def Stat_def checkFfmpegPath_def Let_def
           split: stat_result.splits)

theorem C6_missing_output_path_is_created_witness:
  "Stat exampleEnv world0 ''/out'' = ErrNotExist \<and>
   loadConfig_generic exampleEnv world0 ''config.json'' =
     (Inr exampleConfig, \<lparr>spawned = [], mkdirCalls = [(''/out'', True)]\<rparr>) \<and>
   Stat exampleEnv (snd (loadConfig_generic exampleEnv world0 ''config.json'')) ''/out'' = StatOk True \<and>
   loadConfig_generic readOnlyEnv world0 ''config.json'' =
     (Inl DirectoryCreateError, world0\<lparr>mkdirCalls := mkdirCalls world0 @ [(''/out'', False)]\<rparr>)"
proof -
  let ?p = "\<lparr>BasePath = ''/media'', FfmpegPath = [], OutputPath = ''/out''\<rparr>"
  have r: "readFile exampleEnv ''config.json'' = Some ''{}''" by code_simp
  have u: "unmarshal exampleEnv ''{}'' = Some ?p" by code_simp
  have b: "BasePath ?p \<noteq> []" by simp
  have ou: "OutputPath ?p \<noteq> []" by simp
  have sb: "Stat exampleEnv world0 (BasePath ?p) \<noteq> ErrNotExist" by code_simp
  have so: "Stat exampleEnv world0 (OutputPath ?p) = ErrNotExist" by code_simp
  have m: "mkdirAllOk exampleEnv (OutputPath ?p)" by code_simp
  have l: "lookPath exampleEnv (defaultFfmpegPath (FfmpegPath ?p))" by code_simp
  have c: "?p\<lparr>FfmpegPath := defaultFfmpegPath (FfmpegPath ?p)\<rparr> = exampleConfig" by code_simp
  have w: "mkdirCalls world0 = []" "spawned world0 = []" by (simp_all add: world0_def)
  have r': "readFile readOnlyEnv ''config.json'' = Some ''{}''" by code_simp
  have u': "unmarshal readOnlyEnv ''{}'' = Some ?p" by code_simp
  have sb': "Stat readOnlyEnv world0 (BasePath ?p) \<noteq> ErrNotExist" by code_simp
  have so': "Stat readOnlyEnv world0 (OutputPath ?p) = ErrNotExist" by code_simp
  have m': "\<not> mkdirAllOk readOnlyEnv (OutputPath ?p)" by code_simp
  have sp: "spawned (snd (loadConfig_generic exampleEnv world0 ''config.json'')) = []" by code_simp
  from C6_missing_output_path_is_created [OF r u b ou sb so] m l c w
  have 1: "mkdirCalls (snd (loadConfig_generic exampleEnv world0 ''config.json'')) = [(''/out'', True)]"
    and 2: "Stat exampleEnv (snd (loadConfig_generic exampleEnv world0 ''config.json'')) ''/out'' = StatOk True"
    and 3: "fst (loadConfig_generic exampleEnv world0 ''config.json'') = Inr exampleConfig"
    by simp_all
  from C6_missing_output_path_is_created [OF r' u' b ou sb' so'] m'
  have 4: "loadConfig_generic readOnlyEnv world0 ''config.json'' =
     (Inl DirectoryCreateError, world0\<lparr>mkdirCalls := mkdirCalls world0 @ [(''/out'', False)]\<rparr>)"
    by simp
  from 1 sp have "snd (loadConfig_generic exampleEnv world0 ''config.json'') = \<lparr>spawned = [], mkdirCalls = [(''/out'', True)]\<rparr>"
    by (cases "snd (loadConfig_generic exampleEnv world0 ''config.json'')") simp
  with 3 have 5: "loadConfig_generic exampleEnv world0 ''config.json'' =
     (Inr exampleConfig, \<lparr>spawned = [], mkdirCalls = [(''/out'', True)]\<rparr>)"
    by (cases "loadConfig_generic exampleEnv world0 ''config.json''") simp
  from so 2 4 5 show ?thesis by simp
qed

section \<open>Properties of the processing loop\<close>

lemma processFiles_generic_append:
  "processFiles_generic env config (pre @ rest) s =
     processFiles_generic env config rest (processFiles_generic env config pre s)"
  by (induction pre arbitrary: s) simp_all

lemma processFiles_filtered_append:
  "processFiles_filtered env config (pre @ rest) s =
     processFiles_filtered env config rest (processFiles_filtered env config pre s)"
  by (induction pre arbitrary: s) simp_all

lemma runEncoder_failed:
  "procError (runProc env (spawned w) cmd) \<Longrightarrow>
   runEncoder env w cmd = (Some EncodeError, w\<lparr>spawned := spawned w @ [cmd]\<rparr>)"
  by (simp add: runEncoder_def Run_def)

lemma runEncoder_ok:
  "\<not> procError (runProc env (spawned w) cmd) \<Longrightarrow>
   runEncoder env w cmd = (None, w\<lparr>spawned := spawned w @ [cmd]\<rparr>)"
  by (simp add: runEncoder_def Run_def)

lemma convert_filtered_not_skipped:
  "getVideoCodec env w f ff = (r, w') \<Longrightarrow> \<not> skipCheck env r \<Longrightarrow>
   convertVideoToAV1_filtered env w f ff =
     runEncoder env w' (encoderCommand ff f (fullOutputPath_filtered f))"
  by (simp add: convertVideoToAV1_filtered_def skipCheck_def split: sum.splits)

lemma convert_filtered_skipped:
  "getVideoCodec env w f ff = (r, w') \<Longrightarrow> skipCheck env r \<Longrightarrow>
   convertVideoToAV1_filtered env w f ff = (None, w')"
  by (simp add: convertVideoToAV1_filtered_def skipCheck_def split: sum.splits)

lemma getVideoCodec_world:
  "snd (getVideoCodec env w f ff) = w\<lparr>spawned := spawned w @ [probeCommand env w f ff]\<rparr>"
  by (simp add: getVideoCodec_def Run_def)

lemma processFile_filtered_skip:
  "getVideoCodec env w f (FfmpegPath config) = (r, w1) \<Longrightarrow> skipCheck env r \<Longrightarrow>
   processFile_filtered env config f (c, w) = (c\<lparr>skippedCount := skippedCount c + 1\<rparr>, w1)"
  by (simp add: processFile_filtered_def skipCheck_def)

lemma processFile_filtered_convert:
  "getVideoCodec env w f (FfmpegPath config) = (r, w1) \<Longrightarrow> \<not> skipCheck env r \<Longrightarrow>
   processFile_filtered env config f (c, w) =
     (case convertVideoToAV1_filtered env w1 f (FfmpegPath config) of
        (Some err, w2) \<Rightarrow> (c\<lparr>errorCount := errorCount c + 1\<rparr>, w2)
      | (None, w2) \<Rightarrow> (c\<lparr>successCount := successCount c + 1\<rparr>, w2))"
  by (simp add: processFile_filtered_def skipCheck_def)

lemma main_generic_past_startup:
  "loadConfig_generic env world0 ''config.json'' = (Inr config, w0) \<Longrightarrow>
   findVideoFiles_generic env (BasePath config) = Inr videoFiles \<Longrightarrow>
   exitCode (main_generic env) = 0 \<and>
   (videoFiles \<noteq> [] \<longrightarrow>
      summary (main_generic env) =
        Some (fst (processFiles_generic env config videoFiles (counts0, w0))))"
  by (simp add: main_generic_def split: prod.splits)

lemma main_filtered_past_startup:
  "loadConfig_filtered env world0 ''config.json'' = (Inr config, w0) \<Longrightarrow>
   findVideoFiles_filtered env (BasePath config) = Inr videoFiles \<Longrightarrow>
   exitCode (main_filtered env) = 0 \<and>
   (videoFiles \<noteq> [] \<longrightarrow>
      summary (main_filtered env) =
        Some (fst (processFiles_filtered env config videoFiles (counts_filtered0, w0))))"
  by (simp add: main_filtered_def split: prod.splits)

text \<open>
  Claim C4. For every run that gets past startup, if the encoder subprocess exits with a
  non-zero code for some file, the run continues with the next file and the failure
  counter goes up by exactly one for that file, the other counters and the rest of the run
  being what they would be from that state; the process's own exit code is 0, and the
  summary shows the counters the loop ends with. Stated for both variants: a file
  \<open>f\<close> met in any state \<open>(c, w)\<close> of the loop, at any position \<open>pre @ f # rest\<close> of
  the list.
\<close>

theorem C4_encoder_failure_is_counted_and_the_run_goes_on:
  "(runProc env (spawned w)
      (encoderCommand (FfmpegPath config) f (fullOutputPath_generic f (OutputPath config))) =
      Exited code out \<and> code \<noteq> 0 \<longrightarrow>
    processFiles_generic env config (f # rest) (c, w) =
      processFiles_generic env config rest
        (c\<lparr>errorCount := errorCount c + 1\<rparr>,
         w\<lparr>spawned := spawned w @
            [encoderCommand (FfmpegPath config) f (fullOutputPath_generic f (OutputPath config))]\<rparr>)) \<and>
   (getVideoCodec env w f (FfmpegPath config') = (r1, w1) \<and> \<not> skipCheck env r1 \<and>
    getVideoCodec env w1 f (FfmpegPath config') = (r2, w2) \<and> \<not> skipCheck env r2 \<and>
    runProc env (spawned w2)
      (encoderCommand (FfmpegPath config') f (fullOutputPath_filtered f)) = Exited code out \<and>
    code \<noteq> 0 \<longrightarrow>
    processFiles_filtered env config' (f # rest) (c', w) =
      processFiles_filtered env config' rest
        (c'\<lparr>errorCount := errorCount c' + 1\<rparr>,
         w2\<lparr>spawned := spawned w2 @
            [encoderCommand (FfmpegPath config') f (fullOutputPath_filtered f)]\<rparr>)) \<and>
   processFiles_generic env config (pre @ f # rest) s =
     processFiles_generic env config (f # rest) (processFiles_generic env config pre s) \<and>
   processFiles_filtered env config' (pre @ f # rest) s' =
     processFiles_filtered env config' (f # rest) (processFiles_filtered env config' pre s') \<and>
   (loadConfig_generic env world0 ''config.json'' = (Inr config, w0) \<and>
    findVideoFiles_generic env (BasePath config) = Inr videoFiles \<longrightarrow>
      exitCode (main_generic env) = 0 \<and>
      (videoFiles \<noteq> [] \<longrightarrow>
         summary (main_generic env) =
           Some (fst (processFiles_generic env config videoFiles (counts0, w0))))) \<and>
   (loadConfig_filtered env world0 ''config.json'' = (Inr config', w0') \<and>
    findVideoFiles_filtered env (BasePath config') = Inr videoFiles' \<longrightarrow>
      exitCode (main_filtered env) = 0 \<and>
      (videoFiles' \<noteq> [] \<longrightarrow>
         summary (main_filtered env) =
           Some (fst (processFiles_filtered env config' videoFiles' (counts_filtered0, w0')))))"
proof (intro conjI impI)
  assume a: "runProc env (spawned w)
      (encoderCommand (FfmpegPath config) f (fullOutputPath_generic f (OutputPath config))) =
      Exited code out \<and> code \<noteq> 0"
  then have "procError (runProc env (spawned w)
      (encoderCommand (FfmpegPath config) f (fullOutputPath_generic f (OutputPath config))))"
    by simp
  then show "processFiles_generic env config (f # rest) (c, w) =
      processFiles_generic env config rest
        (c\<lparr>errorCount := errorCount c + 1\<rparr>,
         w\<lparr>spawned := spawned w @
            [encoderCommand (FfmpegPath config) f (fullOutputPath_generic f (OutputPath config))]\<rparr>)"
    by (simp add: processFile_generic_def convertVideoToAV1_generic_def runEncoder_failed)
next
  assume a: "getVideoCodec env w f (FfmpegPath config') = (r1, w1) \<and> \<not> skipCheck env r1 \<and>
    getVideoCodec env w1 f (FfmpegPath config') = (r2, w2) \<and> \<not> skipCheck env r2 \<and>
    runProc env (spawned w2)
      (encoderCommand (FfmpegPath config') f (fullOutputPath_filtered f)) = Exited code out \<and>
    code \<noteq> 0"
  then have p: "procError (runProc env (spawned w2)
      (encoderCommand (FfmpegPath config') f (fullOutputPath_filtered f)))"
    by simp
  from a have "convertVideoToAV1_filtered env w1 f (FfmpegPath config') =
      (Some EncodeError, w2\<lparr>spawned := spawned w2 @
            [encoderCommand (FfmpegPath config') f (fullOutputPath_filtered f)]\<rparr>)"
    by (simp add: convert_filtered_not_skipped runEncoder_failed [OF p])
  with a show "processFiles_filtered env config' (f # rest) (c', w) =
      processFiles_filtered env config' rest
        (c'\<lparr>errorCount := errorCount c' + 1\<rparr>,
         w2\<lparr>spawned := spawned w2 @
            [encoderCommand (FfmpegPath config') f (fullOutputPath_filtered f)]\<rparr>)"
    by (simp add: processFile_filtered_convert)
next
  show "processFiles_generic env config (pre @ f # rest) s =
     processFiles_generic env config (f # rest) (processFiles_generic env config pre s)"
    by (rule processFiles_generic_append)
  show "processFiles_filtered env config' (pre @ f # rest) s' =
     processFiles_filtered env config' (f # rest) (processFiles_filtered env config' pre s')"
    by (rule processFiles_filtered_append)
next
  assume "loadConfig_generic env world0 ''config.json'' = (Inr config, w0) \<and>
    findVideoFiles_generic env (BasePath config) = Inr videoFiles"
  then have g: "exitCode (main_generic env) = 0 \<and>
   (videoFiles \<noteq> [] \<longrightarrow>
      summary (main_generic env) =
        Some (fst (processFiles_generic env config videoFiles (counts0, w0))))"
    using main_generic_past_startup by blast
  from g show "exitCode (main_generic env) = 0" by simp
  { assume "videoFiles \<noteq> []"
    with g show "summary (main_generic env) =
        Some (fst (processFiles_generic env config videoFiles (counts0, w0)))" by simp }
next
  assume "loadConfig_filtered env world0 ''config.json'' = (Inr config', w0') \<and>
    findVideoFiles_filtered env (BasePath config') = Inr videoFiles'"
  then have g: "exitCode (main_filtered env) = 0 \<and>
   (videoFiles' \<noteq> [] \<longrightarrow>
      summary (main_filtered env) =
        Some (fst (processFiles_filtered env config' videoFiles' (counts_filtered0, w0'))))"
    using main_filtered_past_startup by blast
  from g show "exitCode (main_filtered env) = 0" by simp
  { assume "videoFiles' \<noteq> []"
    with g show "summary (main_filtered env) =
        Some (fst (processFiles_filtered env config' videoFiles' (counts_filtered0, w0')))" by simp }
qed


theorem C4_encoder_failure_is_counted_and_the_run_goes_on_witness:
  "runProc failingEncoderEnv (spawned world0)
     (encoderCommand (FfmpegPath exampleConfig) ''/media/20240101/a.mp4''
        (fullOutputPath_generic ''/media/20240101/a.mp4'' (OutputPath exampleConfig))) =
     Exited 1 [] \<and>
   processFiles_generic failingEncoderEnv exampleConfig
     (''/media/20240101/a.mp4'' # [''/media/notadate/b.mkv'']) (counts0, world0) =
   processFiles_generic failingEncoderEnv exampleConfig [''/media/notadate/b.mkv'']
     (counts0\<lparr>errorCount := errorCount counts0 + 1\<rparr>,
      world0\<lparr>spawned := spawned world0 @
        [encoderCommand (FfmpegPath exampleConfig) ''/media/20240101/a.mp4''
           (fullOutputPath_generic ''/media/20240101/a.mp4'' (OutputPath exampleConfig))]\<rparr>) \<and>
   processFiles_filtered failingEncoderEnv exampleConfig_filtered
     (''/media/20240101/a.mp4'' # [''/media/notadate/b.mkv'']) (counts_filtered0, world0) =
   processFiles_filtered failingEncoderEnv exampleConfig_filtered [''/media/notadate/b.mkv'']
     (counts_filtered0\<lparr>errorCount := errorCount counts_filtered0 + 1\<rparr>,
      \<lparr>spawned = [probeCommand failingEncoderEnv world0 ''/media/20240101/a.mp4'' ''ffmpeg'',
                  probeCommand failingEncoderEnv world0 ''/media/20240101/a.mp4'' ''ffmpeg''],
       mkdirCalls = []\<rparr>
      \<lparr>spawned := [probeCommand failingEncoderEnv world0 ''/media/20240101/a.mp4'' ''ffmpeg'',
                   probeCommand failingEncoderEnv world0 ''/media/20240101/a.mp4'' ''ffmpeg''] @
        [encoderCommand (FfmpegPath exampleConfig_filtered) ''/media/20240101/a.mp4''
           (fullOutputPath_filtered ''/media/20240101/a.mp4'')]\<rparr>) \<and>
   exitCode (main_generic failingEncoderEnv) = 0 \<and>
   summary (main_generic failingEncoderEnv) = Some \<lparr>successCount = 0, errorCount = 2\<rparr> \<and>
   exitCode (main_filtered failingEncoderEnv) = 0 \<and>
   summary (main_filtered failingEncoderEnv) =
     Some \<lparr>successCount = 0, errorCount = 1, skippedCount = 0\<rparr>"
proof -
  let ?a = "''/media/20240101/a.mp4''" and ?b = "''/media/notadate/b.mkv''"
  let ?p = "probeCommand failingEncoderEnv world0 ?a ''ffmpeg''"
  let ?w1 = "\<lparr>spawned = [?p], mkdirCalls = []\<rparr>"
  let ?w2 = "\<lparr>spawned = [?p, ?p], mkdirCalls = []\<rparr>"
  let ?wOut = "\<lparr>spawned = [], mkdirCalls = [(''/out'', True)]\<rparr>"
  note C4 = C4_encoder_failure_is_counted_and_the_run_goes_on
  note generic_run = C4 [THEN conjunct2, THEN conjunct2, THEN conjunct2, THEN conjunct2,
                         THEN conjunct1, THEN mp]
  note filtered_run = C4 [THEN conjunct2, THEN conjunct2, THEN conjunct2, THEN conjunct2,
                          THEN conjunct2, THEN mp]
  have e1: "runProc failingEncoderEnv (spawned world0)
     (encoderCommand (FfmpegPath exampleConfig) ?a
        (fullOutputPath_generic ?a (OutputPath exampleConfig))) = Exited 1 []"
    by code_simp
  then have h1: "runProc failingEncoderEnv (spawned world0)
     (encoderCommand (FfmpegPath exampleConfig) ?a
        (fullOutputPath_generic ?a (OutputPath exampleConfig))) = Exited 1 [] \<and> (1::nat) \<noteq> 0"
    by simp
  note g = C4 [where env = failingEncoderEnv and w = world0 and config = exampleConfig
             and f = ?a and rest = "[?b]" and c = counts0 and code = 1 and out = "[]",
             THEN conjunct1, THEN mp, OF h1]
  have p1: "getVideoCodec failingEncoderEnv world0 ?a (FfmpegPath exampleConfig_filtered) =
              (Inr ''h264'', ?w1)"
    by code_simp
  have p2: "getVideoCodec failingEncoderEnv ?w1 ?a (FfmpegPath exampleConfig_filtered) =
              (Inr ''h264'', ?w2)"
    by code_simp
  have ns: "\<not> skipCheck failingEncoderEnv (Inr ''h264'')" by code_simp
  have e2: "runProc failingEncoderEnv (spawned ?w2)
     (encoderCommand (FfmpegPath exampleConfig_filtered) ?a (fullOutputPath_filtered ?a)) =
     Exited 1 []"
    by code_simp
  from p1 ns p2 e2
  have h2: "getVideoCodec failingEncoderEnv world0 ?a (FfmpegPath exampleConfig_filtered) =
              (Inr ''h264'', ?w1) \<and>
            \<not> skipCheck failingEncoderEnv (Inr ''h264'') \<and>
            getVideoCodec failingEncoderEnv ?w1 ?a (FfmpegPath exampleConfig_filtered) =
              (Inr ''h264'', ?w2) \<and>
            \<not> skipCheck failingEncoderEnv (Inr ''h264'') \<and>
            runProc failingEncoderEnv (spawned ?w2)
              (encoderCommand (FfmpegPath exampleConfig_filtered) ?a (fullOutputPath_filtered ?a)) =
              Exited 1 [] \<and> (1::nat) \<noteq> 0"
    by simp
  note f = C4 [where env = failingEncoderEnv and w = world0
             and config' = exampleConfig_filtered and f = ?a and rest = "[?b]"
             and c' = counts_filtered0 and code = 1 and out = "[]"
             and ?r1.0 = "Inr ''h264''" and ?w1.0 = ?w1
             and ?r2.0 = "Inr ''h264''" and ?w2.0 = ?w2,
             THEN conjunct2, THEN conjunct1, THEN mp, OF h2]
  have lg: "loadConfig_generic failingEncoderEnv world0 ''config.json'' = (Inr exampleConfig, ?wOut) \<and>
            findVideoFiles_generic failingEncoderEnv (BasePath exampleConfig) = Inr [?a, ?b]"
    by code_simp
  have sg: "fst (processFiles_generic failingEncoderEnv exampleConfig [?a, ?b] (counts0, ?wOut)) =
     \<lparr>successCount = 0, errorCount = 2\<rparr>"
    by code_simp
  from generic_run [OF lg] sg
  have mg: "exitCode (main_generic failingEncoderEnv) = 0 \<and>
            summary (main_generic failingEncoderEnv) = Some \<lparr>successCount = 0, errorCount = 2\<rparr>"
    by simp
  have lf: "loadConfig_filtered failingEncoderEnv world0 ''config.json'' =
              (Inr exampleConfig_filtered, world0) \<and>
            findVideoFiles_filtered failingEncoderEnv (BasePath exampleConfig_filtered) = Inr [?a]"
    by code_simp
  have sf: "fst (processFiles_filtered failingEncoderEnv exampleConfig_filtered [?a]
                  (counts_filtered0, world0)) =
     \<lparr>successCount = 0, errorCount = 1, skippedCount = 0\<rparr>"
    by code_simp
  from filtered_run [OF lf] sf
  have mf: "exitCode (main_filtered failingEncoderEnv) = 0 \<and>
            summary (main_filtered failingEncoderEnv) =
              Some \<lparr>successCount = 0, errorCount = 1, skippedCount = 0\<rparr>"
    by simp
  have sw: "spawned ?w2 = [?p, ?p]" by simp
  from e1 g f [unfolded sw] mg mf show ?thesis by (simp only: simp_thms)
qed




text \<open>
  Claim C1 says that in the filtered variant a file whose probe succeeds with a codec name
  containing \<^verbatim>\<open>av1\<close> is skipped, with no encoder spawned, and counted as skipped
  and not as a success, whichever of the two checks makes the decision. Both checks do
  skip without spawning the encoder (the two lemmas below). But when the decision falls
  to the check inside the driver, the file is counted as a success: in the run evaluated
  here the controller's probe fails, the driver's probe answers \<^verbatim>\<open>av1\<close>, only
  the two probes are spawned, and the summary reads one success and no skip.
\<close>

theorem C1_skip_inside_the_driver_is_counted_as_success:
  "getVideoCodec flakyProberEnv world0 ''/media/20240101/a.mp4'' ''ffmpeg'' =
     (Inl ProbeError,
      \<lparr>spawned = [[''ffprobe'', ''-v'', ''error'', ''-select_streams'', ''v:0'',
                   ''-show_entries'', ''stream=codec_name'',
                   ''-of'', ''default=noprint_wrappers=1:nokey=1'', ''/media/20240101/a.mp4'']],
       mkdirCalls = []\<rparr>) \<and>
   getVideoCodec flakyProberEnv
     \<lparr>spawned = [[''ffprobe'', ''-v'', ''error'', ''-select_streams'', ''v:0'',
                  ''-show_entries'', ''stream=codec_name'',
                  ''-of'', ''default=noprint_wrappers=1:nokey=1'', ''/media/20240101/a.mp4'']],
      mkdirCalls = []\<rparr> ''/media/20240101/a.mp4'' ''ffmpeg'' =
     (Inr ''av1'',
      \<lparr>spawned = [[''ffprobe'', ''-v'', ''error'', ''-select_streams'', ''v:0'',
                   ''-show_entries'', ''stream=codec_name'',
                   ''-of'', ''default=noprint_wrappers=1:nokey=1'', ''/media/20240101/a.mp4''],
                  [''ffprobe'', ''-v'', ''error'', ''-select_streams'', ''v:0'',
                   ''-show_entries'', ''stream=codec_name'',
                   ''-of'', ''default=noprint_wrappers=1:nokey=1'', ''/media/20240101/a.mp4'']],
       mkdirCalls = []\<rparr>) \<and>
   isAV1 flakyProberEnv ''av1'' \<and>
   main_filtered flakyProberEnv =
     \<lparr>exitCode = 0,
      summary = Some \<lparr>successCount = 1, errorCount = 0, skippedCount = 0\<rparr>,
      finalWorld =
        \<lparr>spawned = [[''ffprobe'', ''-v'', ''error'', ''-select_streams'', ''v:0'',
                     ''-show_entries'', ''stream=codec_name'',
                     ''-of'', ''default=noprint_wrappers=1:nokey=1'', ''/media/20240101/a.mp4''],
                    [''ffprobe'', ''-v'', ''error'', ''-select_streams'', ''v:0'',
                     ''-show_entries'', ''stream=codec_name'',
                     ''-of'', ''default=noprint_wrappers=1:nokey=1'', ''/media/20240101/a.mp4'']],
         mkdirCalls = []\<rparr>\<rparr>"
  by code_simp

lemma av1_file_is_skipped_without_encoder:
  "getVideoCodec env w f (FfmpegPath config) = (Inr codec, w1) \<Longrightarrow> isAV1 env codec \<Longrightarrow>
   processFile_filtered env config f (c, w) =
     (c\<lparr>skippedCount := skippedCount c + 1\<rparr>,
      w\<lparr>spawned := spawned w @ [probeCommand env w f (FfmpegPath config)]\<rparr>)"
  using getVideoCodec_world [of env w f "FfmpegPath config"]
  by (simp add: processFile_filtered_def skipCheck_def)

lemma av1_in_driver_returns_without_encoder:
  "getVideoCodec env w f ff = (Inr codec, w1) \<Longrightarrow> isAV1 env codec \<Longrightarrow>
   convertVideoToAV1_filtered env w f ff =
     (None, w\<lparr>spawned := spawned w @ [probeCommand env w f ff]\<rparr>)"
  using getVideoCodec_world [of env w f ff]
  by (simp add: convertVideoToAV1_filtered_def)

section \<open>Properties of the path functions\<close>

lemma sep_iff_not: "isPathSeparator c \<longleftrightarrow> \<not> notSeparator c"
  by (simp add: isPathSeparator_def notSeparator_def)

lemma extFrom_suffix: "\<exists>k. extFrom xs acc = drop k (rev xs @ acc)"
proof (induction xs arbitrary: acc)
  case Nil
  have "extFrom [] acc = drop (length acc) (rev [] @ acc)" by simp
  then show ?case by blast
next
  case (Cons c xs)
  show ?case
  proof (cases "isPathSeparator c")
    case True
    then have "extFrom (c # xs) acc = drop (length (rev (c # xs) @ acc)) (rev (c # xs) @ acc)"
      by simp
    then show ?thesis by blast
  next
    case False
    show ?thesis
    proof (cases "c = CHR ''.''")
      case True
      with False have "extFrom (c # xs) acc = drop (length xs) (rev (c # xs) @ acc)" by simp
      then show ?thesis by blast
    next
      case f: False
      from Cons.IH [of "c # acc"] obtain k where "extFrom xs (c # acc) = drop k (rev xs @ c # acc)"
        by blast
      with False f have "extFrom (c # xs) acc = drop k (rev (c # xs) @ acc)" by simp
      then show ?thesis by blast
    qed
  qed
qed

lemma Ext_suffix: "\<exists>k. Ext path = drop k path"
  using extFrom_suffix [of "rev path" "[]"] by (simp add: Ext_def)

lemma TrimSuffix_drop: "TrimSuffix s (drop k s) @ drop k s = s"
proof (cases "k \<le> length s")
  case True
  then have "length s - (length s - k) = k" by simp
  then show ?thesis by (simp add: TrimSuffix_def HasSuffix_def)
next
  case False
  then show ?thesis by (simp add: TrimSuffix_def HasSuffix_def)
qed

lemma TrimSuffix_Ext: "TrimSuffix b (Ext b) @ Ext b = b"
  using Ext_suffix [of b] TrimSuffix_drop by metis

lemma cleanLoop_Cons:
  "cleanLoop rooted (c # cs) out dd =
     (if isPathSeparator c then cleanLoop rooted cs out dd
      else if isDot c cs then cleanLoop rooted cs out dd
      else if isDotDot c cs then
        (if length out > dd then
           cleanLoop rooted (drop 1 cs) (take (backtrack out dd (length out - 1)) out) dd
         else if \<not> rooted then
           cleanLoop rooted (drop 1 cs) ((if length out > 0 then out @ ''/'' else out) @ ''..'')
             (length ((if length out > 0 then out @ ''/'' else out) @ ''..''))
         else cleanLoop rooted (drop 1 cs) out dd)
      else cleanLoop rooted (dropWhile notSeparator cs)
             (addSlash rooted out @ c # takeWhile notSeparator cs) dd)"
  by (simp only: cleanLoop.simps isDot_def isDotDot_def addSlash_def Let_def)

declare cleanLoop.simps(2) [simp del]

lemma plainName_Cons:
  assumes "plainName (c # cs)"
  shows "\<not> isPathSeparator c" "\<not> isDot c cs" "\<not> isDotDot c cs"
        "takeWhile notSeparator cs = cs" "dropWhile notSeparator cs = []"
proof -
  from assms have c: "notSeparator c" and cs: "list_all notSeparator cs"
    by (simp_all add: plainName_def)
  from c show "\<not> isPathSeparator c" by (simp add: sep_iff_not)
  from assms cs show "\<not> isDot c cs"
    by (cases cs) (auto simp: plainName_def isDot_def sep_iff_not)
  from assms cs show "\<not> isDotDot c cs"
    by (cases cs; cases "tl cs") (auto simp: plainName_def isDotDot_def sep_iff_not)
  from cs show "takeWhile notSeparator cs = cs" "dropWhile notSeparator cs = []"
    by (simp_all add: list_all_iff)
qed

lemma cleanLoop_plain:
  assumes "plainName n"
  shows "cleanLoop rooted n out dd = addSlash rooted out @ n"
proof -
  from assms obtain c cs where n: "n = c # cs" by (cases n) (auto simp: plainName_def)
  note p = plainName_Cons [OF assms [unfolded n]]
  have "cleanLoop rooted (c # cs) out dd =
          cleanLoop rooted (dropWhile notSeparator cs)
            (addSlash rooted out @ c # takeWhile notSeparator cs) dd"
    using p(1-3) by (simp add: cleanLoop_Cons)
  also have "\<dots> = addSlash rooted out @ c # cs"
    by (simp only: p(4,5) cleanLoop.simps(1))
  finally show ?thesis by (simp only: n)
qed

lemma backtrack_ge: "dd \<le> w \<Longrightarrow> dd \<le> backtrack buf dd w"
  by (induction buf dd w rule: backtrack.induct) (subst backtrack.simps, auto)


lemma dropWhile_with_separator:
  assumes "xs \<noteq> []" and "last xs = CHR ''/''"
  shows "dropWhile notSeparator (xs @ n) = dropWhile notSeparator xs @ n"
    and "dropWhile notSeparator xs \<noteq> []"
    and "last (dropWhile notSeparator xs) = CHR ''/''"
proof -
  from assms have m: "CHR ''/'' \<in> set xs" using last_in_set by metis
  have ns: "\<not> notSeparator CHR ''/''" by (simp add: notSeparator_def)
  from m ns show "dropWhile notSeparator (xs @ n) = dropWhile notSeparator xs @ n"
    by (rule dropWhile_append1)
  from m ns show ne: "dropWhile notSeparator xs \<noteq> []"
    by (auto simp: dropWhile_eq_Nil_conv)
  have "xs = takeWhile notSeparator xs @ dropWhile notSeparator xs" by simp
  then have "last xs = last (takeWhile notSeparator xs @ dropWhile notSeparator xs)" by simp
  also have "\<dots> = last (dropWhile notSeparator xs)" using ne by (rule last_appendR)
  finally show "last (dropWhile notSeparator xs) = CHR ''/''" using assms(2) by simp
qed

lemma cleanLoop_tail:
  assumes "plainName n"
  shows "xs = [] \<or> last xs = CHR ''/'' \<Longrightarrow>
         rooted \<longrightarrow> dd = 1 \<and> out \<noteq> [] \<and> hd out = CHR ''/'' \<Longrightarrow>
         path = xs @ n \<Longrightarrow>
         \<exists>pre. cleanLoop rooted path out dd = pre @ n \<and> (pre = [] \<or> last pre = CHR ''/'')"
proof (induction rooted path out dd arbitrary: xs rule: cleanLoop.induct)
  case (1 rooted out dd)
  with assms show ?case by (simp add: plainName_def)
next
  case (2 rooted c cs out dd)
  note IH = "2.IH" [folded isDot_def isDotDot_def addSlash_def]
  note inv = "2.prems"(2)
  show ?case
  proof (cases xs)
    case Nil
    with "2.prems" have "c # cs = n" by simp
    with assms have e: "cleanLoop rooted (c # cs) out dd = addSlash rooted out @ n"
      by (simp only: cleanLoop_plain)
    have "addSlash rooted out = [] \<or> last (addSlash rooted out) = CHR ''/''"
      using inv by (cases out) (auto simp: addSlash_def)
    with e show ?thesis by blast
  next
    case (Cons x xs')
    with "2.prems" have x: "x = c" and cs: "cs = xs' @ n" by simp_all
    from "2.prems"(1) Cons x have lastx: "last (c # xs') = CHR ''/''" by simp
    show ?thesis
    proof (cases "isPathSeparator c")
      case True
      from lastx have "xs' = [] \<or> last xs' = CHR ''/''" by (cases xs') simp_all
      from IH(1) [OF True this inv cs] True show ?thesis by (simp add: cleanLoop_Cons)
    next
      case nsep: False
      with lastx have ne: "xs' \<noteq> []" by (auto simp: isPathSeparator_def)
      with lastx have l: "last xs' = CHR ''/''" by simp
      show ?thesis
      proof (cases "isDot c cs")
        case True
        from l have "xs' = [] \<or> last xs' = CHR ''/''" by simp
        from IH(2) [OF nsep True this inv cs] nsep True show ?thesis
          by (simp add: cleanLoop_Cons)
      next
        case ndot: False
        show ?thesis
        proof (cases "isDotDot c cs")
          case True
          then have "take 1 cs = ''.''" by (simp add: isDotDot_def)
          with cs ne obtain xs'' where xs': "xs' = CHR ''.'' # xs''"
            by (cases xs') auto
          with l have l'': "xs'' = [] \<or> last xs'' = CHR ''/''" by (cases xs'') auto
          from cs xs' have d: "drop 1 cs = xs'' @ n" by simp
          show ?thesis
          proof (cases "dd < length out")
            case True
            let ?k = "backtrack out dd (length out - 1)"
            from True have "dd \<le> length out - 1" by simp
            then have k: "dd \<le> ?k" by (rule backtrack_ge)
            have inv': "rooted \<longrightarrow> dd = 1 \<and> take ?k out \<noteq> [] \<and> hd (take ?k out) = CHR ''/''"
              using inv k by (cases out) auto
            from IH(3) [OF nsep ndot \<open>isDotDot c cs\<close> True l'' inv' d] nsep ndot \<open>isDotDot c cs\<close> True
            show ?thesis by (simp add: cleanLoop_Cons)
          next
            case ngt: False
            show ?thesis
            proof (cases rooted)
              case True
              from IH(5) [OF nsep ndot \<open>isDotDot c cs\<close> ngt _ l'' inv d] True
                nsep ndot \<open>isDotDot c cs\<close> ngt
              show ?thesis by (simp add: cleanLoop_Cons)
            next
              case False
              then have inv': "rooted \<longrightarrow> length ((if 0 < length out then out @ ''/'' else out) @ ''..'') = 1 \<and>
                   (if 0 < length out then out @ ''/'' else out) @ ''..'' \<noteq> [] \<and>
                   hd ((if 0 < length out then out @ ''/'' else out) @ ''..'') = CHR ''/''"
                by simp
              from IH(4) [OF nsep ndot \<open>isDotDot c cs\<close> ngt False refl l'' inv' d] False
                nsep ndot \<open>isDotDot c cs\<close> ngt
              show ?thesis by (simp add: cleanLoop_Cons)
            qed
          qed
        next
          case ndd: False
          note dw = dropWhile_with_separator(1) [OF ne l, of n] dropWhile_with_separator(2) [OF ne l]
            dropWhile_with_separator(3) [OF ne l]
          have l'': "dropWhile notSeparator xs' = [] \<or> last (dropWhile notSeparator xs') = CHR ''/''"
            using dw(3) by simp
          have inv': "rooted \<longrightarrow> dd = 1 \<and>
                  addSlash rooted out @ c # takeWhile notSeparator cs \<noteq> [] \<and>
                  hd (addSlash rooted out @ c # takeWhile notSeparator cs) = CHR ''/''"
            using inv by (cases out) (auto simp: addSlash_def)
          have d: "dropWhile notSeparator cs = dropWhile notSeparator xs' @ n"
            unfolding cs by (rule dw(1))
          from IH(6) [OF nsep ndot ndd refl l'' inv' d] nsep ndot ndd
          show ?thesis by (simp add: cleanLoop_Cons)
        qed
      qed
    qed
  qed
qed


lemma Clean_tail:
  assumes "plainName n" and "xs = [] \<or> last xs = CHR ''/''"
  shows "\<exists>pre. Clean (xs @ n) = pre @ n \<and> (pre = [] \<or> last pre = CHR ''/'')"
proof (cases "isPathSeparator (hd (xs @ n))")
  case True
  from assms(1) have nn: "n \<noteq> []" "\<not> isPathSeparator (hd n)"
    by (cases n; simp add: plainName_def sep_iff_not)+
  with True obtain x xs' where xs: "xs = x # xs'" by (cases xs) auto
  with assms(2) have l: "xs' = [] \<or> last xs' = CHR ''/''" by (cases xs') auto
  have "\<exists>pre. cleanLoop True (xs' @ n) ''/'' 1 = pre @ n \<and> (pre = [] \<or> last pre = CHR ''/'')"
    by (rule cleanLoop_tail [OF assms(1) l _ refl]) simp
  then obtain pre where "cleanLoop True (xs' @ n) ''/'' 1 = pre @ n"
    and "pre = [] \<or> last pre = CHR ''/''" by blast
  with True xs nn have "Clean (xs @ n) = pre @ n \<and> (pre = [] \<or> last pre = CHR ''/'')"
    by (simp add: Clean_def)
  then show ?thesis by blast
next
  case False
  from assms(1) have nn: "n \<noteq> []" by (simp add: plainName_def)
  have "\<exists>pre. cleanLoop False (xs @ n) [] 0 = pre @ n \<and> (pre = [] \<or> last pre = CHR ''/'')"
    by (rule cleanLoop_tail [OF assms(1) assms(2) _ refl]) simp
  then obtain pre where "cleanLoop False (xs @ n) [] 0 = pre @ n"
    and "pre = [] \<or> last pre = CHR ''/''" by blast
  with False nn have "Clean (xs @ n) = pre @ n \<and> (pre = [] \<or> last pre = CHR ''/'')"
    by (simp add: Clean_def)
  then show ?thesis by blast
qed

lemma Join_tail:
  assumes "plainName n"
  shows "\<exists>pre. Join d n = pre @ n \<and> (pre = [] \<or> last pre = CHR ''/'')"
proof (cases "d = []")
  case True
  from assms have nn: "n \<noteq> []" by (simp add: plainName_def)
  from Clean_tail [OF assms, of "[]"] True nn show ?thesis by (simp add: Join_def)
next
  case False
  from Clean_tail [OF assms, of "d @ ''/''"] False show ?thesis by (simp add: Join_def)
qed

lemma Base_tail:
  assumes "plainName n" and "pre = [] \<or> last pre = CHR ''/''"
  shows "Base (pre @ n) = n"
proof -
  from assms(1) have nn: "n \<noteq> []" and all: "list_all notSeparator n"
    by (simp_all add: plainName_def)
  from nn obtain ys y where n: "n = ys @ [y]" by (cases n rule: rev_cases) auto
  with all have "\<not> isPathSeparator y" by (simp add: sep_iff_not)
  then have strip: "stripTrailingSeparators (pre @ n) = pre @ n"
    by (simp add: stripTrailingSeparators_def n)
  have tw: "takeWhile notSeparator (rev pre) = []"
    using assms(2) by (cases pre rule: rev_cases) (auto simp: notSeparator_def)
  from all have "\<forall>x\<in>set (rev n). notSeparator x" by (simp add: list_all_iff)
  then have "takeWhile notSeparator (rev n @ rev pre) = rev n @ takeWhile notSeparator (rev pre)"
    by (intro takeWhile_append2) simp
  then have le: "lastElement (pre @ n) = n"
    by (simp add: lastElement_def tw)
  from nn show ?thesis by (simp add: Base_def strip le Let_def)
qed

lemma Base_Join: "plainName n \<Longrightarrow> Base (Join d n) = n"
  using Join_tail [of n d] Base_tail [of n] by metis

lemma Base_no_separator:
  assumes "Base p \<noteq> ''/''"
  shows "list_all notSeparator (Base p)"
proof (cases "p = []")
  case True
  then show ?thesis by (simp add: Base_def notSeparator_def)
next
  case False
  let ?e = "lastElement (stripTrailingSeparators p)"
  from False assms have "Base p = ?e" by (simp add: Base_def Let_def split: if_splits)
  moreover have "list_all notSeparator ?e"
    unfolding lastElement_def list_all_iff using set_takeWhileD by fastforce
  ultimately show ?thesis by simp
qed

lemma TrimSuffix_take: "\<exists>k. TrimSuffix s t = take k s"
proof (cases "HasSuffix s t")
  case True
  then show ?thesis by (auto simp: TrimSuffix_def)
next
  case False
  then have "TrimSuffix s t = take (length s) s" by (simp add: TrimSuffix_def)
  then show ?thesis by blast
qed

lemma outputFileName_plain:
  assumes "Base inputPath \<noteq> ''/''"
  shows "plainName (outputFileName inputPath)"
proof -
  let ?b = "Base inputPath"
  obtain k where k: "TrimSuffix ?b (Ext ?b) = take k ?b" using TrimSuffix_take by blast
  from Base_no_separator [OF assms] have "list_all notSeparator (take k ?b)"
    unfolding list_all_iff using in_set_takeD by fastforce
  moreover have "list_all notSeparator ''_av1.mkv''" by (simp add: notSeparator_def)
  ultimately have a: "list_all notSeparator (outputFileName inputPath)"
    by (simp add: outputFileName_def Let_def k)
  have "length (outputFileName inputPath) \<ge> 8" by (simp add: outputFileName_def Let_def)
  then have "outputFileName inputPath \<noteq> [] \<and> outputFileName inputPath \<noteq> ''.'' \<and>
             outputFileName inputPath \<noteq> ''..''"
    by auto
  with a show ?thesis by (simp add: plainName_def)
qed

subsection \<open>Cleaning element by element; cleaned paths are fixed points\<close>

lemma takeWhile_empty_iff:
  "takeWhile notSeparator cs = [] \<longleftrightarrow> cs = [] \<or> isPathSeparator (hd cs)"
  by (cases cs) (simp_all add: sep_iff_not)

lemma isDot_element:
  "\<not> isPathSeparator c \<Longrightarrow> isDot c cs \<longleftrightarrow> c # takeWhile notSeparator cs = ''.''"
  by (simp add: isDot_def takeWhile_empty_iff)

lemma isDotDot_element:
  "\<not> isPathSeparator c \<Longrightarrow> isDotDot c cs \<longleftrightarrow> c # takeWhile notSeparator cs = ''..''"
proof (cases cs)
  case Nil
  then show ?thesis by (simp add: isDotDot_def)
next
  case (Cons x xs)
  show ?thesis
  proof (cases "x = CHR ''.''")
    case True
    then have "notSeparator x" by (simp add: notSeparator_def)
    with Cons True show ?thesis
      by (auto simp: isDotDot_def takeWhile_empty_iff)
  next
    case False
    with Cons show ?thesis by (auto simp: isDotDot_def)
  qed
qed

lemma dropWhile_at_separator:
  "cs = [] \<or> isPathSeparator (hd cs) \<Longrightarrow> dropWhile notSeparator cs = cs"
  by (cases cs) (auto simp: sep_iff_not)

lemma elementStep_plain:
  "e \<noteq> ''.'' \<Longrightarrow> e \<noteq> ''..'' \<Longrightarrow> elementStep rooted (out, dd) e = (addSlash rooted out @ e, dd)"
  by (simp add: elementStep_def)

lemma cleanLoop_element_step:
  assumes nsep: "\<not> isPathSeparator c"
  shows "cleanLoop rooted (c # cs) out dd =
           cleanLoop rooted (dropWhile notSeparator cs)
             (fst (elementStep rooted (out, dd) (c # takeWhile notSeparator cs)))
             (snd (elementStep rooted (out, dd) (c # takeWhile notSeparator cs)))"
proof -
  let ?e = "c # takeWhile notSeparator cs"
  show ?thesis
  proof (cases "isDot c cs")
    case True
    then have e: "?e = ''.''" using isDot_element [OF nsep] by simp
    from True have "cs = [] \<or> isPathSeparator (hd cs)" by (simp add: isDot_def)
    then have d: "dropWhile notSeparator cs = cs" by (rule dropWhile_at_separator)
    have s: "elementStep rooted (out, dd) ''.'' = (out, dd)" by (simp add: elementStep_def)
    have "cleanLoop rooted (c # cs) out dd = cleanLoop rooted cs out dd"
      using nsep True by (simp add: cleanLoop_Cons)
    then show ?thesis by (simp only: e d s fst_conv snd_conv)
  next
    case ndot: False
    then have ne: "?e \<noteq> ''.''" using isDot_element [OF nsep] by simp
    show ?thesis
    proof (cases "isDotDot c cs")
      case True
      then have e: "?e = ''..''" using isDotDot_element [OF nsep] by simp
      from True obtain cs2 where cs: "cs = CHR ''.'' # cs2"
        by (cases cs) (auto simp: isDotDot_def)
      with True have "cs2 = [] \<or> isPathSeparator (hd cs2)" by (simp add: isDotDot_def)
      then have "dropWhile notSeparator cs2 = cs2" by (rule dropWhile_at_separator)
      then have d: "dropWhile notSeparator cs = drop 1 cs"
        by (simp add: cs notSeparator_def)
      have l: "cleanLoop rooted (c # cs) out dd =
         (if length out > dd then
            cleanLoop rooted (drop 1 cs) (take (backtrack out dd (length out - 1)) out) dd
          else if \<not> rooted then
            cleanLoop rooted (drop 1 cs) ((if length out > 0 then out @ ''/'' else out) @ ''..'')
              (length ((if length out > 0 then out @ ''/'' else out) @ ''..''))
          else cleanLoop rooted (drop 1 cs) out dd)"
        using nsep ndot True by (simp only: cleanLoop_Cons if_True if_False)
      have s: "elementStep rooted (out, dd) ''..'' =
          (if length out > dd then (take (backtrack out dd (length out - 1)) out, dd)
           else if \<not> rooted then
             ((if length out > 0 then out @ ''/'' else out) @ ''..'',
              length ((if length out > 0 then out @ ''/'' else out) @ ''..''))
           else (out, dd))"
        by (simp add: elementStep_def)
      show ?thesis
        unfolding e d l s by (cases "dd < length out"; cases rooted) simp_all
    next
      case False
      then have "?e \<noteq> ''..''" using isDotDot_element [OF nsep] by simp
      with ne have s: "elementStep rooted (out, dd) ?e = (addSlash rooted out @ ?e, dd)"
        by (rule elementStep_plain)
      have "cleanLoop rooted (c # cs) out dd =
              cleanLoop rooted (dropWhile notSeparator cs) (addSlash rooted out @ ?e) dd"
        using nsep ndot False by (simp only: cleanLoop_Cons if_False)
      then show ?thesis by (simp only: s fst_conv snd_conv)
    qed
  qed
qed

lemma cleanLoop_cleanState:
  "cleanLoop rooted p (fst st) (snd st) = fst (cleanState rooted p st)"
proof (induction rooted p st rule: cleanState.induct)
  case (1 rooted st)
  show ?case by simp
next
  case (2 rooted c cs st)
  show ?case
  proof (cases "isPathSeparator c")
    case True
    with "2.IH"(1) show ?thesis by (simp add: cleanLoop_Cons)
  next
    case nsep: False
    have "cleanLoop rooted (c # cs) (fst st) (snd st) =
           cleanLoop rooted (dropWhile notSeparator cs)
             (fst (elementStep rooted st (c # takeWhile notSeparator cs)))
             (snd (elementStep rooted st (c # takeWhile notSeparator cs)))"
      using cleanLoop_element_step [OF nsep, of rooted cs "fst st" "snd st"] by simp
    also have "\<dots> = fst (cleanState rooted (dropWhile notSeparator cs)
                          (elementStep rooted st (c # takeWhile notSeparator cs)))"
      by (rule "2.IH"(2) [OF nsep])
    also have "\<dots> = fst (cleanState rooted (c # cs) st)"
      using nsep by simp
    finally show ?thesis .
  qed
qed

lemma takeWhile_before_separator:
  "takeWhile notSeparator (xs @ CHR ''/'' # ys) = takeWhile notSeparator xs"
  by (induction xs) (simp_all add: notSeparator_def)

lemma dropWhile_before_separator:
  "dropWhile notSeparator (xs @ CHR ''/'' # ys) = dropWhile notSeparator xs @ CHR ''/'' # ys"
  by (induction xs) (simp_all add: notSeparator_def)

lemma cleanState_segment:
  "cleanState rooted (xs @ CHR ''/'' # ys) st = cleanState rooted ys (cleanState rooted xs st)"
proof (induction rooted xs st rule: cleanState.induct)
  case (1 rooted st)
  show ?case by (simp add: isPathSeparator_def)
next
  case (2 rooted c cs st)
  then show ?case
    by (simp add: takeWhile_before_separator dropWhile_before_separator)
qed

lemma cleanState_element:
  assumes "list_all notSeparator e"
  shows "cleanState rooted e st = (if e = [] then st else elementStep rooted st e)"
proof (cases e)
  case Nil
  then show ?thesis by simp
next
  case (Cons c cs)
  with assms have "notSeparator c" and cs: "list_all notSeparator cs" by simp_all
  then have "\<not> isPathSeparator c" by (simp add: sep_iff_not)
  moreover from cs have "takeWhile notSeparator cs = cs" "dropWhile notSeparator cs = []"
    by (simp_all add: list_all_iff)
  ultimately have "cleanState rooted (c # cs) st = cleanState rooted [] (elementStep rooted st (c # cs))"
    by (simp only: cleanState.simps if_False)
  then show ?thesis by (simp add: Cons)
qed

lemma joinElems_Cons: "es \<noteq> [] \<Longrightarrow> joinElems (e # es) = e @ ''/'' @ joinElems es"
  by (cases es) simp_all

lemma joinElems_append:
  "es \<noteq> [] \<Longrightarrow> fs \<noteq> [] \<Longrightarrow> joinElems (es @ fs) = joinElems es @ ''/'' @ joinElems fs"
proof (induction es rule: joinElems.induct)
  case 1
  then show ?case by simp
next
  case (2 e)
  then show ?case by (simp add: joinElems_Cons)
next
  case (3 e f es)
  then show ?case by simp
qed

lemma joinElems_snoc: "es \<noteq> [] \<Longrightarrow> joinElems (es @ [e]) = joinElems es @ ''/'' @ e"
  using joinElems_append [of es "[e]"] by simp

lemma joinElems_empty_iff:
  "list_all (\<lambda>e. e \<noteq> []) es \<Longrightarrow> joinElems es = [] \<longleftrightarrow> es = []"
  by (induction es rule: joinElems.induct) simp_all

lemma backtrack_to_separator:
  "list_all notSeparator e \<Longrightarrow> dd \<le> length X \<Longrightarrow> n \<le> length e \<Longrightarrow>
   backtrack (X @ CHR ''/'' # e @ Z) dd (length X + n) = length X"
proof (induction n)
  case 0
  show ?case by (subst backtrack.simps) (simp add: notSeparator_def)
next
  case (Suc n)
  then have "n < length e" by simp
  with Suc.prems(1) have "notSeparator (e ! n)" by (simp add: list_all_length)
  then have "notSeparator ((X @ CHR ''/'' # e @ Z) ! (length X + Suc n))"
    using \<open>n < length e\<close> by (simp add: nth_append)
  with Suc show ?case by (subst backtrack.simps) simp
qed

lemma backtrack_to_dotdot:
  "list_all notSeparator e \<Longrightarrow> n < length e \<Longrightarrow>
   backtrack (X @ e @ Z) (length X) (length X + n) = length X"
proof (induction n)
  case 0
  show ?case by (subst backtrack.simps) simp
next
  case (Suc n)
  then have "notSeparator (e ! Suc n)" by (simp add: list_all_length)
  then have "notSeparator ((X @ e @ Z) ! (length X + Suc n))"
    using Suc.prems(2) by (simp add: nth_append)
  with Suc show ?case by (subst backtrack.simps) simp
qed

lemma plainName_nonempty: "list_all plainName es \<Longrightarrow> list_all (\<lambda>e. e \<noteq> []) es"
  by (simp add: list_all_iff plainName_def)

lemma dots_plain_nonempty:
  "list_all plainName es \<Longrightarrow> list_all (\<lambda>e. e \<noteq> []) (replicate k ''..'' @ es)"
  by (auto simp: list_all_iff plainName_def)

lemma addSlash_rooted:
  "addSlash True (CHR ''/'' # x) = (if x = [] then ''/'' else CHR ''/'' # x @ ''/'')"
  by (simp add: addSlash_def)

lemma addSlash_relative: "addSlash False x = (if x = [] then [] else x @ ''/'')"
  by (simp add: addSlash_def)

lemma elementStep_stateOf_plain:
  assumes es: "list_all plainName es" and e: "plainName e"
  shows "elementStep rooted (stateOf rooted k es) e = stateOf rooted k (es @ [e])"
proof -
  from e have ne: "e \<noteq> ''.''" "e \<noteq> ''..''" by (simp_all add: plainName_def)
  show ?thesis
  proof (cases rooted)
    case True
    have j: "joinElems es = [] \<longleftrightarrow> es = []"
      by (rule joinElems_empty_iff [OF plainName_nonempty [OF es]])
    show ?thesis
    proof (cases "es = []")
      case t: True
      with True show ?thesis
        by (simp add: stateOf_def elementStep_plain [OF ne] addSlash_rooted)
    next
      case False
      with True j show ?thesis
        by (simp add: stateOf_def elementStep_plain [OF ne] addSlash_rooted joinElems_snoc)
    qed
  next
    case False
    let ?X = "replicate k ''..'' @ es"
    have j: "joinElems ?X = [] \<longleftrightarrow> ?X = []"
      by (rule joinElems_empty_iff [OF dots_plain_nonempty [OF es]])
    show ?thesis
    proof (cases "?X = []")
      case t: True
      with False show ?thesis
        by (simp add: stateOf_def elementStep_plain [OF ne] addSlash_relative)
    next
      case f: False
      then have "joinElems (?X @ [e]) = joinElems ?X @ ''/'' @ e" by (rule joinElems_snoc)
      with False f j show ?thesis
        by (simp add: stateOf_def elementStep_plain [OF ne] addSlash_relative)
    qed
  qed
qed

lemma joinElems_dots_Suc:
  "joinElems (replicate (Suc k) ''..'') =
     (if k = 0 then ''..'' else joinElems (replicate k ''..'') @ ''/..'')"
proof (cases k)
  case 0
  then show ?thesis by simp
next
  case (Suc m)
  have "replicate (Suc k) ''..'' = replicate k ''..'' @ [''..'']"
    by (simp add: replicate_append_same)
  moreover have "replicate k ''..'' \<noteq> []" using Suc by simp
  ultimately have "joinElems (replicate (Suc k) ''..'') = joinElems (replicate k ''..'') @ ''/'' @ ''..''"
    using joinElems_snoc [of "replicate k ''..''" "''..''"] by simp
  with Suc show ?thesis by simp
qed

lemma length_dots_le:
  "length (joinElems (replicate k ''..'')) \<le> length (joinElems (replicate k ''..'' @ es))"
proof (cases "es = [] \<or> k = 0")
  case True
  then show ?thesis by auto
next
  case False
  then have "joinElems (replicate k ''..'' @ es) =
             joinElems (replicate k ''..'') @ ''/'' @ joinElems es"
    by (intro joinElems_append) auto
  then show ?thesis by simp
qed

lemma elementStep_stateOf_dotdot:
  assumes es: "list_all plainName es"
  shows "elementStep rooted (stateOf rooted k es) ''..'' =
           (if es = [] then (if rooted then stateOf True k [] else stateOf False (Suc k) [])
            else stateOf rooted k (butlast es))"
proof (cases es rule: rev_cases)
  case Nil
  show ?thesis
  proof (cases rooted)
    case True
    with Nil show ?thesis by (simp add: stateOf_def elementStep_def)
  next
    case False
    have "joinElems (replicate k ''..'') = [] \<longleftrightarrow> k = 0"
      using joinElems_empty_iff [of "replicate k ''..''"] by (simp add: list_all_iff)
    with False Nil show ?thesis
      by (simp add: stateOf_def elementStep_def joinElems_dots_Suc del: replicate_Suc)
  qed
next
  case (snoc es' e)
  with es have es': "list_all plainName es'" and e: "plainName e" by simp_all
  from e have en: "e \<noteq> []" and ens: "list_all notSeparator e" by (simp_all add: plainName_def)
  from en obtain n where n: "length e = Suc n" by (cases e) auto
  show ?thesis
  proof (cases rooted)
    case True
    show ?thesis
    proof (cases "es' = []")
      case t: True
      have "backtrack (''/'' @ e @ []) (length ''/'') (length ''/'' + n) = length ''/''"
        by (rule backtrack_to_dotdot [OF ens]) (simp add: n)
      then have b: "backtrack (CHR ''/'' # e) (Suc 0) (length e) = Suc 0" by (simp add: n)
      from True t snoc en show ?thesis
        by (simp add: stateOf_def elementStep_def b)
    next
      case f: False
      let ?X = "''/'' @ joinElems es'"
      have "backtrack (?X @ CHR ''/'' # e @ []) 1 (length ?X + length e) = length ?X"
        by (rule backtrack_to_separator [OF ens]) simp_all
      then have b: "backtrack (CHR ''/'' # joinElems es' @ CHR ''/'' # e) (Suc 0)
                      (Suc (length (joinElems es') + length e)) = Suc (length (joinElems es'))"
        by simp
      from f have j: "joinElems (es' @ [e]) = joinElems es' @ ''/'' @ e" by (rule joinElems_snoc)
      from True snoc show ?thesis
        by (simp add: stateOf_def elementStep_def j b)
    qed
  next
    case False
    let ?D = "replicate k ''..''"
    let ?X = "?D @ es'"
    show ?thesis
    proof (cases "?X = []")
      case t: True
      have "backtrack ([] @ e @ []) (length ([]::string)) (length ([]::string) + n) = length ([]::string)"
        by (rule backtrack_to_dotdot [OF ens]) (simp add: n)
      then have b: "backtrack e 0 (length e - Suc 0) = 0" by (simp add: n)
      from False t snoc en show ?thesis
        by (simp add: stateOf_def elementStep_def b)
    next
      case f: False
      then have j: "joinElems (?X @ [e]) = joinElems ?X @ ''/'' @ e" by (rule joinElems_snoc)
      have le: "length (joinElems ?D) \<le> length (joinElems ?X)" by (rule length_dots_le)
      have "backtrack (joinElems ?X @ CHR ''/'' # e @ []) (length (joinElems ?D))
              (length (joinElems ?X) + length e) = length (joinElems ?X)"
        by (rule backtrack_to_separator [OF ens le]) simp
      then have b: "backtrack (joinElems ?X @ CHR ''/'' # e) (length (joinElems ?D))
              (length (joinElems ?X) + length e) = length (joinElems ?X)"
        by simp
      have o: "joinElems (?D @ es' @ [e]) = joinElems ?X @ CHR ''/'' # e"
        using j by simp
      from False snoc le show ?thesis
        by (simp add: stateOf_def elementStep_def o b del: replicate_Suc)
    qed
  qed
qed

lemma stateOf_start: "(''/'', 1) = stateOf True 0 []" "([], 0) = stateOf False 0 []"
  by (simp_all add: stateOf_def)

lemma elementStep_dot: "elementStep rooted st ''.'' = st"
  by (cases st) (simp add: elementStep_def)

lemma normalState_stateOf: "list_all plainName es \<Longrightarrow> normalState rooted (stateOf rooted k es)"
  by (auto simp: normalState_def)

lemma elementStep_normal:
  assumes "normalState rooted st" and "e \<noteq> []" and "list_all notSeparator e"
  shows "normalState rooted (elementStep rooted st e)"
proof -
  from assms(1) obtain k es where es: "list_all plainName es" and st: "st = stateOf rooted k es"
    by (auto simp: normalState_def)
  consider "e = ''.''" | "e = ''..''" | "plainName e"
    using assms(2,3) by (auto simp: plainName_def)
  then show ?thesis
  proof cases
    case 1
    with assms(1) show ?thesis by (simp add: elementStep_dot)
  next
    case 2
    have b: "list_all plainName (butlast es)"
      using es by (auto simp: list_all_iff dest: in_set_butlastD)
    have n: "list_all plainName ([]::string list)" by simp
    show ?thesis
      unfolding 2 st elementStep_stateOf_dotdot [OF es]
      using b n by (simp add: normalState_stateOf)
  next
    case 3
    with es have "list_all plainName (es @ [e])" by simp
    then show ?thesis
      unfolding st elementStep_stateOf_plain [OF es 3] by (rule normalState_stateOf)
  qed
qed

lemma cleanState_normal:
  "normalState rooted st \<Longrightarrow> normalState rooted (cleanState rooted p st)"
proof (induction rooted p st rule: cleanState.induct)
  case (1 rooted st)
  then show ?case by simp
next
  case (2 rooted c cs st)
  show ?case
  proof (cases "isPathSeparator c")
    case True
    with 2 show ?thesis by simp
  next
    case False
    then have "list_all notSeparator (c # takeWhile notSeparator cs)"
      by (auto simp: list_all_iff sep_iff_not dest: set_takeWhileD)
    with "2.prems" have "normalState rooted (elementStep rooted st (c # takeWhile notSeparator cs))"
      by (intro elementStep_normal) simp_all
    with "2.IH"(2) [OF False] False show ?thesis by simp
  qed
qed

lemma cleanState_plain_elems:
  "list_all plainName es0 \<Longrightarrow> list_all plainName es \<Longrightarrow>
   cleanState rooted (joinElems es) (stateOf rooted k es0) = stateOf rooted k (es0 @ es)"
proof (induction es arbitrary: es0 rule: joinElems.induct)
  case 1
  show ?case by simp
next
  case (2 e)
  then have e: "plainName e" by simp
  then have "list_all notSeparator e" "e \<noteq> []" by (simp_all add: plainName_def)
  then show ?case
    by (simp add: cleanState_element elementStep_stateOf_plain [OF "2.prems"(1) e])
next
  case (3 e f es)
  then have e: "plainName e" and r: "list_all plainName (f # es)" by simp_all
  then have ee: "list_all notSeparator e" "e \<noteq> []" by (simp_all add: plainName_def)
  from "3.prems"(1) e have a: "list_all plainName (es0 @ [e])" by simp
  have "cleanState rooted (joinElems (e # f # es)) (stateOf rooted k es0) =
        cleanState rooted (joinElems (f # es)) (cleanState rooted e (stateOf rooted k es0))"
    using cleanState_segment [of rooted e "joinElems (f # es)"] by simp
  also have "\<dots> = cleanState rooted (joinElems (f # es)) (stateOf rooted k (es0 @ [e]))"
    using ee by (simp add: cleanState_element elementStep_stateOf_plain [OF "3.prems"(1) e])
  also have "\<dots> = stateOf rooted k ((es0 @ [e]) @ f # es)"
    by (rule "3.IH" [OF a r])
  finally show ?case by simp
qed

lemma cleanState_dots_elems:
  "list_all plainName es \<Longrightarrow>
   cleanState False (joinElems (replicate k ''..'' @ es)) (stateOf False j []) =
     stateOf False (j + k) es"
proof (induction k arbitrary: j)
  case 0
  then show ?case using cleanState_plain_elems [of "[]" es False j] by simp
next
  case (Suc k)
  have d: "list_all notSeparator ''..''" by (simp add: notSeparator_def)
  have s: "elementStep False (stateOf False j []) ''..'' = stateOf False (Suc j) []"
    using elementStep_stateOf_dotdot [of "[]" False j] by simp
  have "cleanState False ''..'' (stateOf False j []) = elementStep False (stateOf False j []) ''..''"
    by (subst cleanState_element [OF d]) simp
  then have c: "cleanState False ''..'' (stateOf False j []) = stateOf False (Suc j) []"
    by (simp only: s)
  show ?case
  proof (cases "replicate k ''..'' @ es = []")
    case True
    then have k: "k = 0" and e: "es = []" by simp_all
    have "joinElems (replicate (Suc k) ''..'' @ es) = ''..''" by (simp add: k e)
    with c show ?thesis by (simp add: k e)
  next
    case False
    then have "joinElems (replicate (Suc k) ''..'' @ es) =
               ''..'' @ CHR ''/'' # joinElems (replicate k ''..'' @ es)"
      by (simp add: joinElems_Cons)
    then have "cleanState False (joinElems (replicate (Suc k) ''..'' @ es)) (stateOf False j []) =
        cleanState False (joinElems (replicate k ''..'' @ es))
          (cleanState False ''..'' (stateOf False j []))"
      by (simp only: cleanState_segment)
    also have "\<dots> = cleanState False (joinElems (replicate k ''..'' @ es)) (stateOf False (Suc j) [])"
      by (simp only: c)
    also have "\<dots> = stateOf False (Suc j + k) es" by (rule Suc.IH [OF Suc.prems])
    finally show ?thesis by simp
  qed
qed

lemma Clean_rooted:
  "Clean (CHR ''/'' # t) =
     (if fst (cleanState True t (stateOf True 0 [])) = [] then ''.''
      else fst (cleanState True t (stateOf True 0 [])))"
  using cleanLoop_cleanState [of True t "(''/'', 1)"]
  by (simp add: Clean_def isPathSeparator_def stateOf_def Let_def)

lemma Clean_relative:
  "p \<noteq> [] \<Longrightarrow> \<not> isPathSeparator (hd p) \<Longrightarrow>
   Clean p =
     (if fst (cleanState False p (stateOf False 0 [])) = [] then ''.''
      else fst (cleanState False p (stateOf False 0 [])))"
  using cleanLoop_cleanState [of False p "([], 0)"]
  by (simp add: Clean_def stateOf_def Let_def)

lemma cleanState_rooted_form:
  "\<exists>k es. list_all plainName es \<and> cleanState True t (stateOf True 0 []) = stateOf True k es"
  using cleanState_normal [OF normalState_stateOf, of "[]" True t 0]
  by (simp add: normalState_def)

lemma cleanState_relative_form:
  "\<exists>k es. list_all plainName es \<and> cleanState False p (stateOf False 0 []) = stateOf False k es"
  using cleanState_normal [OF normalState_stateOf, of "[]" False p 0]
  by (simp add: normalState_def)

lemma isClean_dot: "isClean ''.''"
  unfolding isClean_def by (rule exI [of _ 0], rule exI [of _ "[]"]) simp

lemma Clean_isClean: "isClean (Clean p)"
proof (cases "p = []")
  case True
  then show ?thesis by (simp add: Clean_def isClean_dot)
next
  case False
  show ?thesis
  proof (cases "isPathSeparator (hd p)")
    case True
    with False obtain t where p: "p = CHR ''/'' # t"
      by (cases p) (auto simp: isPathSeparator_def)
    from cleanState_rooted_form [of t] obtain k es where
      "list_all plainName es" "cleanState True t (stateOf True 0 []) = stateOf True k es" by blast
    then show ?thesis unfolding p Clean_rooted isClean_def
      by (auto simp: stateOf_def)
  next
    case f: False
    from cleanState_relative_form [of p] obtain k es where
      e: "list_all plainName es" "cleanState False p (stateOf False 0 []) = stateOf False k es"
      by blast
    show ?thesis
    proof (cases "joinElems (replicate k ''..'' @ es) = []")
      case True
      with e have "Clean p = ''.''"
        unfolding Clean_relative [OF False f] by (simp add: stateOf_def)
      then show ?thesis by (simp add: isClean_dot)
    next
      case ne: False
      with e have "Clean p = joinElems (replicate k ''..'' @ es)"
        unfolding Clean_relative [OF False f] by (simp add: stateOf_def)
      with ne e(1) show ?thesis unfolding isClean_def by auto
    qed
  qed
qed

lemma hd_joinElems: "X \<noteq> [] \<Longrightarrow> hd X \<noteq> [] \<Longrightarrow> hd (joinElems X) = hd (hd X)"
  by (cases X rule: joinElems.cases) simp_all

lemma relative_form_start:
  assumes "list_all plainName es" and "joinElems (replicate k ''..'' @ es) \<noteq> []"
  shows "\<not> isPathSeparator (hd (joinElems (replicate k ''..'' @ es)))"
proof -
  let ?X = "replicate k ''..'' @ es"
  from assms(2) have ne: "?X \<noteq> []" by auto
  have "hd ?X = ''..'' \<or> plainName (hd ?X)"
  proof (cases k)
    case 0
    with ne assms(1) show ?thesis by (cases es) simp_all
  next
    case (Suc m)
    then show ?thesis by simp
  qed
  then have h: "hd ?X \<noteq> [] \<and> \<not> isPathSeparator (hd (hd ?X))"
    by (cases "hd ?X") (auto simp: plainName_def isPathSeparator_def notSeparator_def)
  with hd_joinElems [OF ne] show ?thesis by simp
qed

lemma Clean_fixes_clean:
  assumes "isClean s"
  shows "Clean s = s"
proof -
  from assms obtain k es where es: "list_all plainName es"
    and s: "s = ''/'' @ joinElems es \<or> s = ''.'' \<or>
            s = joinElems (replicate k ''..'' @ es) \<and> s \<noteq> []"
    unfolding isClean_def by blast
  from s consider "s = ''/'' @ joinElems es" | "s = ''.''"
    | "s = joinElems (replicate k ''..'' @ es)" "s \<noteq> []" by blast
  then show ?thesis
  proof cases
    case 1
    have "cleanState True (joinElems es) (stateOf True 0 []) = stateOf True 0 ([] @ es)"
      by (rule cleanState_plain_elems [OF _ es]) simp
    then show ?thesis unfolding 1 by (simp add: Clean_rooted) (simp add: stateOf_def)
  next
    case 2
    show ?thesis unfolding 2 by code_simp
  next
    case 3
    from relative_form_start [OF es] 3 have h: "\<not> isPathSeparator (hd s)" by simp
    have "cleanState False s (stateOf False 0 []) = stateOf False (0 + k) es"
      unfolding 3(1) by (rule cleanState_dots_elems [OF es])
    then have c: "cleanState False s (stateOf False 0 []) = stateOf False k es" by simp
    have f: "fst (stateOf False k es) = s" using 3(1) by (simp add: stateOf_def)
    show ?thesis unfolding Clean_relative [OF 3(2) h] c f using 3(2) by simp
  qed
qed

lemma Clean_idempotent: "Clean (Clean p) = Clean p"
  by (rule Clean_fixes_clean [OF Clean_isClean])

lemma cleanState_trailing_separator:
  "cleanState rooted (s @ ''/'') st = cleanState rooted s st"
  using cleanState_segment [of rooted s "[]" st] by simp

lemma Clean_trailing_separator:
  assumes "s \<noteq> []"
  shows "Clean (s @ ''/'') = Clean s"
proof (cases "isPathSeparator (hd s)")
  case True
  with assms obtain t where s: "s = CHR ''/'' # t" by (cases s) (auto simp: isPathSeparator_def)
  show ?thesis unfolding s using cleanState_trailing_separator [of True t]
    by (simp add: Clean_rooted)
next
  case False
  with assms have "\<not> isPathSeparator (hd (s @ ''/''))" "s @ ''/'' \<noteq> []" by simp_all
  then show ?thesis
    using cleanState_trailing_separator [of False s]
    by (simp add: Clean_relative [OF assms False] Clean_relative)
qed

lemma Dir_tail:
  assumes "plainName n" and "P = [] \<or> last P = CHR ''/''"
  shows "Dir (P @ n) = Clean P"
proof -
  from assms(1) have "\<And>x. x \<in> set (rev n) \<Longrightarrow> notSeparator x"
    by (simp add: plainName_def list_all_iff)
  then have "dropWhile notSeparator (rev n @ rev P) = dropWhile notSeparator (rev P)"
    by (rule dropWhile_append2)
  also have "\<dots> = rev P"
    using assms(2) by (cases P rule: rev_cases) (auto simp: notSeparator_def)
  finally show ?thesis by (simp add: Dir_def)
qed

lemma plain_is_element: "plainName n \<Longrightarrow> list_all notSeparator n \<and> n \<noteq> []"
  by (simp add: plainName_def)

lemma cleanState_then_plain:
  assumes n: "plainName n" and es: "list_all plainName es"
    and st: "cleanState rooted t st0 = stateOf rooted k es"
  shows "cleanState rooted (t @ CHR ''/'' # n) st0 = stateOf rooted k (es @ [n])"
proof -
  from plain_is_element [OF n] have "cleanState rooted n (stateOf rooted k es) =
      elementStep rooted (stateOf rooted k es) n"
    by (simp add: cleanState_element)
  then show ?thesis
    by (simp add: cleanState_segment st elementStep_stateOf_plain [OF es n])
qed

lemma Join_placement:
  assumes n: "plainName n"
  shows "\<exists>P. Join d n = P @ n \<and> (P = [] \<or> last P = CHR ''/'') \<and> Clean P = Clean d"
proof (cases "d = []")
  case True
  have "isClean n"
    unfolding isClean_def using n
    by (intro exI [of _ 0] exI [of _ "[n]"]) (simp add: plainName_def)
  then have "Clean n = n" by (rule Clean_fixes_clean)
  with True n have "Join d n = [] @ n \<and> Clean [] = Clean d"
    by (simp add: Join_def plainName_def)
  then show ?thesis by blast
next
  case False
  then have j: "Join d n = Clean (d @ CHR ''/'' # n)" by (simp add: Join_def)
  show ?thesis
  proof (cases "isPathSeparator (hd d)")
    case True
    with False obtain t where d: "d = CHR ''/'' # t"
      by (cases d) (auto simp: isPathSeparator_def)
    from cleanState_rooted_form [of t] obtain k es where es: "list_all plainName es"
      and st: "cleanState True t (stateOf True 0 []) = stateOf True k es" by blast
    note st' = cleanState_then_plain [OF n es st]
    have cd: "Clean d = ''/'' @ joinElems es"
      unfolding d Clean_rooted st by (simp add: stateOf_def)
    have "Join d n = Clean (CHR ''/'' # (t @ CHR ''/'' # n))"
      using j by (simp add: d)
    also have "\<dots> = ''/'' @ joinElems (es @ [n])"
      unfolding Clean_rooted st' by (simp add: stateOf_def)
    finally have jn: "Join d n = ''/'' @ joinElems (es @ [n])" .
    show ?thesis
    proof (cases "es = []")
      case t: True
      have "Clean ''/'' = ''/''" by code_simp
      with t cd jn have "Join d n = ''/'' @ n \<and> last ''/'' = CHR ''/'' \<and> Clean ''/'' = Clean d"
        by simp
      then show ?thesis by blast
    next
      case f: False
      then have "joinElems (es @ [n]) = joinElems es @ ''/'' @ n" by (rule joinElems_snoc)
      with jn have 1: "Join d n = (Clean d @ ''/'') @ n" by (simp add: cd)
      have "Clean (Clean d @ ''/'') = Clean (Clean d)"
        by (rule Clean_trailing_separator) (simp add: cd)
      then have 2: "Clean (Clean d @ ''/'') = Clean d" by (simp only: Clean_idempotent)
      have 3: "last (Clean d @ ''/'') = CHR ''/''" by simp
      from 1 2 3 show ?thesis by blast
    qed
  next
    case rel: False
    from cleanState_relative_form [of d] obtain k es where es: "list_all plainName es"
      and st: "cleanState False d (stateOf False 0 []) = stateOf False k es" by blast
    note st' = cleanState_then_plain [OF n es st]
    let ?X = "replicate k ''..'' @ es"
    have ne: "joinElems (?X @ [n]) \<noteq> []"
      using joinElems_empty_iff [of "?X @ [n]"] dots_plain_nonempty [OF es, of k] n
      by (simp add: plainName_def)
    have h: "\<not> isPathSeparator (hd (d @ CHR ''/'' # n))" "d @ CHR ''/'' # n \<noteq> []"
      using rel False by simp_all
    have jn: "Join d n = joinElems (?X @ [n])"
      unfolding j Clean_relative [OF h(2) h(1)] st' using ne by (simp add: stateOf_def)
    have cd: "Clean d = (if joinElems ?X = [] then ''.'' else joinElems ?X)"
      unfolding Clean_relative [OF False rel] st by (simp add: stateOf_def)
    have xe: "joinElems ?X = [] \<longleftrightarrow> ?X = []"
      by (rule joinElems_empty_iff [OF dots_plain_nonempty [OF es]])
    show ?thesis
    proof (cases "?X = []")
      case t: True
      have "Clean [] = ''.''" by (simp add: Clean_def)
      with t jn cd xe have "Join d n = [] @ n \<and> Clean [] = Clean d" by simp
      then show ?thesis by blast
    next
      case f: False
      then have "joinElems (?X @ [n]) = joinElems ?X @ ''/'' @ n" by (rule joinElems_snoc)
      with jn cd xe f have 1: "Join d n = (Clean d @ ''/'') @ n" by simp
      from cd xe f have "Clean d \<noteq> []" by simp
      then have "Clean (Clean d @ ''/'') = Clean (Clean d)" by (rule Clean_trailing_separator)
      then have 2: "Clean (Clean d @ ''/'') = Clean d" by (simp only: Clean_idempotent)
      have 3: "last (Clean d @ ''/'') = CHR ''/''" by simp
      from 1 2 3 show ?thesis by blast
    qed
  qed
qed

lemma Dir_Join: "plainName n \<Longrightarrow> Dir (Join d n) = Clean d"
  using Join_placement [of n d] Dir_tail [of n] by metis

lemma Clean_Dir: "Clean (Dir p) = Dir p"
  by (simp add: Dir_def Clean_idempotent)

lemma Dir_Join_Dir: "plainName n \<Longrightarrow> Dir (Join (Dir p) n) = Dir p"
  by (simp add: Dir_Join Clean_Dir)

section \<open>The encoder command\<close>

text \<open>
  Claim C8. For every file that is converted, the encoder subprocess is spawned with
  exactly the argument list \<^verbatim>\<open>-i <input> -c:v av1_qsv -c:a copy -y <output>\<close>
  after the encoder path, where the output is the name
  \<^verbatim>\<open><base name of the input without its extension>_av1.mkv\<close> joined to the
  configured output directory (generic variant) or to the input's own directory
  (filtered variant, where the conversion takes place when the driver's check does not
  skip the file, after the probe command). The name is the input's base name with its
  extension cut off and \<^verbatim>\<open>_av1.mkv\<close> put in its place; it is the base name of
  the output path, and the directory of the output path is the cleaned output directory
  (generic variant) or the directory of the input (filtered variant), for any input whose
  base name is not the root.
\<close>

theorem C8_encoder_arguments_and_output_name:
  "spawned (snd (convertVideoToAV1_generic env w inputPath outputPath ffmpegPath)) =
     spawned w @
       [[ffmpegPath, ''-i'', inputPath, ''-c:v'', ''av1_qsv'', ''-c:a'', ''copy'', ''-y'',
         Join outputPath (outputFileName inputPath)]] \<and>
   (getVideoCodec env w inputPath ffmpegPath = (r, w1) \<and> \<not> skipCheck env r \<longrightarrow>
      spawned (snd (convertVideoToAV1_filtered env w inputPath ffmpegPath)) =
        spawned w1 @
          [[ffmpegPath, ''-i'', inputPath, ''-c:v'', ''av1_qsv'', ''-c:a'', ''copy'', ''-y'',
            Join (Dir inputPath) (outputFileName inputPath)]]) \<and>
   (getVideoCodec env w inputPath ffmpegPath = (r, w1) \<and> skipCheck env r \<longrightarrow>
      snd (convertVideoToAV1_filtered env w inputPath ffmpegPath) = w1) \<and>
   spawned (snd (getVideoCodec env w inputPath ffmpegPath)) =
     spawned w @ [probeCommand env w inputPath ffmpegPath] \<and>
   outputFileName inputPath =
     TrimSuffix (Base inputPath) (Ext (Base inputPath)) @ ''_av1.mkv'' \<and>
   TrimSuffix (Base inputPath) (Ext (Base inputPath)) @ Ext (Base inputPath) = Base inputPath \<and>
   (Base inputPath \<noteq> ''/'' \<longrightarrow>
      Base (Join outputPath (outputFileName inputPath)) = outputFileName inputPath \<and>
      Base (Join (Dir inputPath) (outputFileName inputPath)) = outputFileName inputPath \<and>
      Dir (Join outputPath (outputFileName inputPath)) = Clean outputPath \<and>
      Dir (Join (Dir inputPath) (outputFileName inputPath)) = Dir inputPath)"
proof (intro conjI impI)
  show "spawned (snd (convertVideoToAV1_generic env w inputPath outputPath ffmpegPath)) =
     spawned w @
       [[ffmpegPath, ''-i'', inputPath, ''-c:v'', ''av1_qsv'', ''-c:a'', ''copy'', ''-y'',
         Join outputPath (outputFileName inputPath)]]"
    by (simp add: convertVideoToAV1_generic_def runEncoder_def Run_def encoderCommand_def
          fullOutputPath_generic_def)
next
  assume a: "getVideoCodec env w inputPath ffmpegPath = (r, w1) \<and> \<not> skipCheck env r"
  then have "convertVideoToAV1_filtered env w inputPath ffmpegPath =
      runEncoder env w1 (encoderCommand ffmpegPath inputPath (fullOutputPath_filtered inputPath))"
    by (simp add: convert_filtered_not_skipped)
  then show "spawned (snd (convertVideoToAV1_filtered env w inputPath ffmpegPath)) =
        spawned w1 @
          [[ffmpegPath, ''-i'', inputPath, ''-c:v'', ''av1_qsv'', ''-c:a'', ''copy'', ''-y'',
            Join (Dir inputPath) (outputFileName inputPath)]]"
    by (simp add: runEncoder_def Run_def encoderCommand_def fullOutputPath_filtered_def)
next
  assume "getVideoCodec env w inputPath ffmpegPath = (r, w1) \<and> skipCheck env r"
  then show "snd (convertVideoToAV1_filtered env w inputPath ffmpegPath) = w1"
    by (simp add: convert_filtered_skipped)
next
  show "spawned (snd (getVideoCodec env w inputPath ffmpegPath)) =
     spawned w @ [probeCommand env w inputPath ffmpegPath]"
    by (simp add: getVideoCodec_world)
next
  show "outputFileName inputPath =
     TrimSuffix (Base inputPath) (Ext (Base inputPath)) @ ''_av1.mkv''"
    by (simp add: outputFileName_def Let_def)
next
  show "TrimSuffix (Base inputPath) (Ext (Base inputPath)) @ Ext (Base inputPath) = Base inputPath"
    by (rule TrimSuffix_Ext)
next
  assume b: "Base inputPath \<noteq> ''/''"
  show "Base (Join outputPath (outputFileName inputPath)) = outputFileName inputPath"
    by (rule Base_Join [OF outputFileName_plain [OF b]])
  show "Base (Join (Dir inputPath) (outputFileName inputPath)) = outputFileName inputPath"
    by (rule Base_Join [OF outputFileName_plain [OF b]])
  show "Dir (Join outputPath (outputFileName inputPath)) = Clean outputPath"
    by (rule Dir_Join [OF outputFileName_plain [OF b]])
  show "Dir (Join (Dir inputPath) (outputFileName inputPath)) = Dir inputPath"
    by (rule Dir_Join_Dir [OF outputFileName_plain [OF b]])
qed

theorem C8_encoder_arguments_and_output_name_witness:
  "Base ''/media/20240101/a.mp4'' \<noteq> ''/'' \<and>
   outputFileName ''/media/20240101/a.mp4'' = ''a_av1.mkv'' \<and>
   Base (Join ''/out'' (outputFileName ''/media/20240101/a.mp4'')) = ''a_av1.mkv'' \<and>
   Base (Join (Dir ''/media/20240101/a.mp4'') (outputFileName ''/media/20240101/a.mp4'')) =
     ''a_av1.mkv'' \<and>
   Dir (Join ''/out'' (outputFileName ''/media/20240101/a.mp4'')) = ''/out'' \<and>
   Dir (Join (Dir ''/media/20240101/a.mp4'') (outputFileName ''/media/20240101/a.mp4'')) =
     ''/media/20240101'' \<and>
   spawned (snd (convertVideoToAV1_generic exampleEnv world0 ''/media/20240101/a.mp4''
                   ''/out'' ''ffmpeg'')) =
     [[''ffmpeg'', ''-i'', ''/media/20240101/a.mp4'', ''-c:v'', ''av1_qsv'', ''-c:a'', ''copy'',
       ''-y'', ''/out/a_av1.mkv'']] \<and>
   getVideoCodec exampleEnv world0 ''/media/20240101/a.mp4'' ''ffmpeg'' =
     (Inr ''h264'',
      \<lparr>spawned = [probeCommand exampleEnv world0 ''/media/20240101/a.mp4'' ''ffmpeg''],
       mkdirCalls = []\<rparr>) \<and>
   spawned (snd (convertVideoToAV1_filtered exampleEnv world0 ''/media/20240101/a.mp4'' ''ffmpeg'')) =
     [probeCommand exampleEnv world0 ''/media/20240101/a.mp4'' ''ffmpeg'',
      [''ffmpeg'', ''-i'', ''/media/20240101/a.mp4'', ''-c:v'', ''av1_qsv'', ''-c:a'', ''copy'',
       ''-y'', ''/media/20240101/a_av1.mkv'']]"
proof -
  let ?a = "''/media/20240101/a.mp4''"
  let ?p = "probeCommand exampleEnv world0 ?a ''ffmpeg''"
  let ?w1 = "\<lparr>spawned = [?p], mkdirCalls = []\<rparr>"
  note C8 = C8_encoder_arguments_and_output_name
    [where env = exampleEnv and w = world0 and inputPath = ?a and ffmpegPath = "''ffmpeg''"
       and outputPath = "''/out''" and r = "Inr ''h264''" and ?w1.0 = ?w1]
  have b: "Base ?a \<noteq> ''/''" by code_simp
  have n: "outputFileName ?a = ''a_av1.mkv''" by code_simp
  have j1: "Join ''/out'' ''a_av1.mkv'' = ''/out/a_av1.mkv''" by code_simp
  have j2: "Join (Dir ?a) ''a_av1.mkv'' = ''/media/20240101/a_av1.mkv''" by code_simp
  have p: "getVideoCodec exampleEnv world0 ?a ''ffmpeg'' = (Inr ''h264'', ?w1)" by code_simp
  have ns: "\<not> skipCheck exampleEnv (Inr ''h264'')" by code_simp
  have w0: "spawned world0 = []" by (simp add: world0_def)
  from p ns have h: "getVideoCodec exampleEnv world0 ?a ''ffmpeg'' = (Inr ''h264'', ?w1) \<and>
                     \<not> skipCheck exampleEnv (Inr ''h264'')" by simp
  note g = C8 [THEN conjunct1, unfolded n j1 w0 append_Nil]
  note f = C8 [THEN conjunct2, THEN conjunct1, THEN mp, OF h, unfolded n j2]
  have co: "Clean ''/out'' = ''/out''" by code_simp
  have di: "Dir ?a = ''/media/20240101''" by code_simp
  note bs = C8 [THEN conjunct2, THEN conjunct2, THEN conjunct2, THEN conjunct2, THEN conjunct2,
                THEN conjunct2, THEN mp, OF b, unfolded co]
  from f have f': "spawned (snd (convertVideoToAV1_filtered exampleEnv world0 ?a ''ffmpeg'')) =
     [?p, [''ffmpeg'', ''-i'', ?a, ''-c:v'', ''av1_qsv'', ''-c:a'', ''copy'',
       ''-y'', ''/media/20240101/a_av1.mkv'']]"
    by simp
  from bs have bs': "Base (Join ''/out'' (outputFileName ?a)) = ''a_av1.mkv'' \<and>
     Base (Join (Dir ?a) (outputFileName ?a)) = ''a_av1.mkv'' \<and>
     Dir (Join ''/out'' (outputFileName ?a)) = ''/out'' \<and>
     Dir (Join (Dir ?a) (outputFileName ?a)) = ''/media/20240101''"
    by (simp only: n di)
  from b n bs' g p f' show ?thesis by (simp only: simp_thms)
qed

end
